theory Spec2Isabelle
  imports Main "HOL-Library.Word" "HOL-Library.Finite_Map" "HOL-Library.Sublist"
begin

section \<open>The collaborators: wrp.Message and log/slog\<close>

text \<open>
  The observer of package wrpslog reads fields of a \<^verbatim>\<open>wrp.Message\<close> and hands
  \<^verbatim>\<open>slog.Attr\<close> values to a \<^verbatim>\<open>*slog.Logger\<close>. Both types belong to other packages;
  they are modelled as far as fields.go and observer.go use them.

  A Go slice is \<open>None\<close> when it is nil and \<open>Some xs\<close> otherwise, so that a nil and an
  empty slice stay different values with the same length. Go's \<^verbatim>\<open>int\<close> and
  \<^verbatim>\<open>int64\<close> are 64-bit words (a 64-bit platform). A pointer \<^verbatim>\<open>*int64\<close> is an option.
\<close>

type_synonym int64 = "64 word"
type_synonym byte = "8 word"
type_synonym 'a slice = "'a list option"
type_synonym gomap = "(string, string) fmap option"

definition len :: "'a slice \<Rightarrow> nat" where
  "len s = (case s of None \<Rightarrow> 0 | Some xs \<Rightarrow> length xs)"

definition len_map :: "gomap \<Rightarrow> nat" where
  "len_map m = (case m of None \<Rightarrow> 0 | Some f \<Rightarrow> fcard (fmdom f))"

record Message =
  msg_Type :: int64
  msg_Source :: string
  msg_Destination :: string
  msg_TransactionUUID :: string
  msg_ContentType :: string
  msg_Accept :: string
  msg_Status :: "int64 option"
  msg_RequestDeliveryResponse :: "int64 option"
  msg_Headers :: "string slice"
  msg_Metadata :: gomap
  msg_Path :: string
  msg_Payload :: "byte slice"
  msg_ServiceName :: string
  msg_URL :: string
  msg_PartnerIDs :: "string slice"
  msg_SessionID :: string
  msg_QualityOfService :: int64

text \<open>The zero value \<^verbatim>\<open>wrp.Message{}\<close>.\<close>

definition Message_zero :: Message where
  "Message_zero = \<lparr>msg_Type = 0, msg_Source = [], msg_Destination = [],
     msg_TransactionUUID = [], msg_ContentType = [], msg_Accept = [],
     msg_Status = None, msg_RequestDeliveryResponse = None, msg_Headers = None,
     msg_Metadata = None, msg_Path = [], msg_Payload = None, msg_ServiceName = [],
     msg_URL = [], msg_PartnerIDs = None, msg_SessionID = [],
     msg_QualityOfService = 0\<rparr>"

text \<open>
  An \<^verbatim>\<open>slog.Value\<close> holds a string, an int64 or any other Go value; of the latter the
  observer produces string slices and string maps. \<open>AnyValue Nil\<close> is the zero Value.
\<close>

datatype any = Nil | Strings "string slice" | StringMap gomap

datatype Value = StringValue string | Int64Value int64 | AnyValue any

record Attr =
  Key :: string
  Value :: Value

text \<open>\<^verbatim>\<open>slog.Attr{}\<close>: the empty key marks a field to skip.\<close>

definition Attr_zero :: Attr where
  "Attr_zero = \<lparr>Key = [], Value = AnyValue Nil\<rparr>"

definition slog_String :: "string \<Rightarrow> string \<Rightarrow> Attr" where
  "slog_String key v = \<lparr>Key = key, Value = StringValue v\<rparr>"

definition slog_Int64 :: "string \<Rightarrow> int64 \<Rightarrow> Attr" where
  "slog_Int64 key v = \<lparr>Key = key, Value = Int64Value v\<rparr>"

definition slog_Int :: "string \<Rightarrow> int64 \<Rightarrow> Attr" where
  "slog_Int key v = slog_Int64 key v"

definition slog_Any_strings :: "string \<Rightarrow> string slice \<Rightarrow> Attr" where
  "slog_Any_strings key v = \<lparr>Key = key, Value = AnyValue (Strings v)\<rparr>"

definition slog_Any_map :: "string \<Rightarrow> gomap \<Rightarrow> Attr" where
  "slog_Any_map key v = \<lparr>Key = key, Value = AnyValue (StringMap v)\<rparr>"

text \<open>
  \<^verbatim>\<open>base64.StdEncoding.EncodeToString\<close> of the Go standard library: RFC 4648 with the
  standard alphabet and \<^verbatim>\<open>=\<close> padding, three bytes to four characters.
\<close>

definition encodeStd :: string where
  "encodeStd = ''ABCDEFGHIJKLMNOPQRSTUVWXYZabcdefghijklmnopqrstuvwxyz0123456789+/''"

definition b64 :: "nat \<Rightarrow> char" where
  "b64 v = encodeStd ! (v mod 64)"

fun encode_bytes :: "byte list \<Rightarrow> string" where
  "encode_bytes (a # b # c # rest) =
     (let v = unat a * 65536 + unat b * 256 + unat c
      in [b64 (v div 262144), b64 (v div 4096), b64 (v div 64), b64 v] @ encode_bytes rest)"
| "encode_bytes [a, b] =
     (let v = unat a * 65536 + unat b * 256
      in [b64 (v div 262144), b64 (v div 4096), b64 (v div 64), CHR ''=''])"
| "encode_bytes [a] =
     (let v = unat a * 65536
      in [b64 (v div 262144), b64 (v div 4096), CHR ''='', CHR ''=''])"
| "encode_bytes [] = []"

definition EncodeToString :: "byte slice \<Rightarrow> string" where
  "EncodeToString src = (case src of None \<Rightarrow> [] | Some bs \<Rightarrow> encode_bytes bs)"

text \<open>
  A \<^verbatim>\<open>*slog.Logger\<close> is used through two methods. \<open>Enabled\<close> is its answer to
  \<^verbatim>\<open>Enabled(ctx, level)\<close>; a call of \<^verbatim>\<open>LogAttrs(ctx, level, msg, attrs...)\<close> is an event
  \<open>LogAttrs ctx level msg attrs\<close> in the list of calls that an operation returns.
  \<^verbatim>\<open>slog.Level\<close> is an integer; the context is any type.
\<close>

record 'c Logger =
  Enabled :: "'c \<Rightarrow> int \<Rightarrow> bool"

datatype 'c call = LogAttrs 'c int string "Attr list"

definition LevelDebug :: int where "LevelDebug = - 4"
definition LevelInfo :: int where "LevelInfo = 0"
definition LevelWarn :: int where "LevelWarn = 4"

text \<open>\<^verbatim>\<open>recordHandler.Enabled\<close> of the test handlers: \<^verbatim>\<open>level >= h.level\<close>.\<close>

definition recordHandler :: "int \<Rightarrow> 'c Logger" where
  "recordHandler level = \<lparr>Enabled = (\<lambda>_ l. l \<ge> level)\<rparr>"

section \<open>fields.go\<close>

definition fMsgType :: string where "fMsgType = ''msg_type''"
definition fSource :: string where "fSource = ''source''"
definition fDestination :: string where "fDestination = ''dest''"
definition fTransactionUUID :: string where "fTransactionUUID = ''transaction_uuid''"
definition fContentType :: string where "fContentType = ''content_type''"
definition fAccept :: string where "fAccept = ''accept''"
definition fStatus :: string where "fStatus = ''status''"
definition fRequestDeliveryResponse :: string where "fRequestDeliveryResponse = ''rdr''"
definition fHeaders :: string where "fHeaders = ''headers''"
definition fMetadata :: string where "fMetadata = ''metadata''"
definition fPath :: string where "fPath = ''path''"
definition fPayload :: string where "fPayload = ''payload''"
definition fPayloadSize :: string where "fPayloadSize = ''payload_size''"
definition fServiceName :: string where "fServiceName = ''service_name''"
definition fURL :: string where "fURL = ''url''"
definition fPartnerIDs :: string where "fPartnerIDs = ''partner_ids''"
definition fSessionID :: string where "fSessionID = ''session_id''"
definition fQualityOfService :: string where "fQualityOfService = ''qos''"

text \<open>
  \<^verbatim>\<open>fieldIndex\<close>: the slots, in the order of the \<^verbatim>\<open>iota\<close> block. \<open>fieldIndices\<close> lists
  them in ascending order, which is the order \<^verbatim>\<open>range ob.fields\<close> visits the array;
  \<open>fieldCount\<close> is the constant that closes the block.
\<close>

datatype fieldIndex =
    idxMsgType
  | idxSource
  | idxDestination
  | idxTransactionUUID
  | idxContentType
  | idxAccept
  | idxStatus
  | idxRequestDeliveryResponse
  | idxHeaders
  | idxMetadata
  | idxPath
  | idxPayload
  | idxPayloadSize
  | idxServiceName
  | idxURL
  | idxPartnerIDs
  | idxSessionID
  | idxQualityOfService

definition fieldIndices :: "fieldIndex list" where
  "fieldIndices = [idxMsgType, idxSource, idxDestination, idxTransactionUUID,
     idxContentType, idxAccept, idxStatus, idxRequestDeliveryResponse, idxHeaders,
     idxMetadata, idxPath, idxPayload, idxPayloadSize, idxServiceName, idxURL,
     idxPartnerIDs, idxSessionID, idxQualityOfService]"

definition fieldCount :: nat where
  "fieldCount = 18"

text \<open>
  \<^verbatim>\<open>fieldFunc\<close> is a function from a message to an attribute. The array
  \<^verbatim>\<open>[fieldCount]fieldFunc\<close> is a function from the slots, \<open>None\<close> for a nil entry.
  A \<^verbatim>\<open>FieldOpt\<close> is a \<^verbatim>\<open>func(*Observer)\<close>; every one that fields.go builds assigns
  one entry of \<^verbatim>\<open>ob.fields\<close> and touches nothing else, so a FieldOpt is modelled as
  a function on that array.
\<close>

type_synonym fieldFunc = "Message \<Rightarrow> Attr"
type_synonym fieldArray = "fieldIndex \<Rightarrow> fieldFunc option"
type_synonym FieldOpt = "fieldArray \<Rightarrow> fieldArray"

text \<open>
  \<^verbatim>\<open>msg.Type.String()\<close> belongs to package wrp; the constructor that uses it takes
  it as the parameter \<open>String\<close>.
\<close>

definition MessageTypeAsString :: "(int64 \<Rightarrow> string) \<Rightarrow> FieldOpt" where
  "MessageTypeAsString String = (\<lambda>fields. fields(idxMsgType \<mapsto>
     (\<lambda>msg. slog_String fMsgType (String (msg_Type msg)))))"

definition MessageTypeAsNum :: FieldOpt where
  "MessageTypeAsNum = (\<lambda>fields. fields(idxMsgType \<mapsto>
     (\<lambda>msg. slog_Int fMsgType (msg_Type msg))))"

definition MessageType :: FieldOpt where
  "MessageType = MessageTypeAsNum"

definition Source :: FieldOpt where
  "Source = (\<lambda>fields. fields(idxSource \<mapsto>
     (\<lambda>msg. if msg_Source msg = [] then Attr_zero
            else slog_String fSource (msg_Source msg))))"

definition SourceAlways :: FieldOpt where
  "SourceAlways = (\<lambda>fields. fields(idxSource \<mapsto>
     (\<lambda>msg. slog_String fSource (msg_Source msg))))"

definition Destination :: FieldOpt where
  "Destination = (\<lambda>fields. fields(idxDestination \<mapsto>
     (\<lambda>msg. if msg_Destination msg = [] then Attr_zero
            else slog_String fDestination (msg_Destination msg))))"

definition DestinationAlways :: FieldOpt where
  "DestinationAlways = (\<lambda>fields. fields(idxDestination \<mapsto>
     (\<lambda>msg. slog_String fDestination (msg_Destination msg))))"

definition TransactionUUID :: FieldOpt where
  "TransactionUUID = (\<lambda>fields. fields(idxTransactionUUID \<mapsto>
     (\<lambda>msg. if msg_TransactionUUID msg = [] then Attr_zero
            else slog_String fTransactionUUID (msg_TransactionUUID msg))))"

definition TransactionUUIDAlways :: FieldOpt where
  "TransactionUUIDAlways = (\<lambda>fields. fields(idxTransactionUUID \<mapsto>
     (\<lambda>msg. slog_String fTransactionUUID (msg_TransactionUUID msg))))"

definition ContentType :: FieldOpt where
  "ContentType = (\<lambda>fields. fields(idxContentType \<mapsto>
     (\<lambda>msg. if msg_ContentType msg = [] then Attr_zero
            else slog_String fContentType (msg_ContentType msg))))"

definition ContentTypeAlways :: FieldOpt where
  "ContentTypeAlways = (\<lambda>fields. fields(idxContentType \<mapsto>
     (\<lambda>msg. slog_String fContentType (msg_ContentType msg))))"

definition Accept :: FieldOpt where
  "Accept = (\<lambda>fields. fields(idxAccept \<mapsto>
     (\<lambda>msg. if msg_Accept msg = [] then Attr_zero
            else slog_String fAccept (msg_Accept msg))))"

definition AcceptAlways :: FieldOpt where
  "AcceptAlways = (\<lambda>fields. fields(idxAccept \<mapsto>
     (\<lambda>msg. slog_String fAccept (msg_Accept msg))))"

definition Status :: FieldOpt where
  "Status = (\<lambda>fields. fields(idxStatus \<mapsto>
     (\<lambda>msg. case msg_Status msg of None \<Rightarrow> Attr_zero
            | Some v \<Rightarrow> slog_Int64 fStatus v)))"

definition StatusAlways :: FieldOpt where
  "StatusAlways = (\<lambda>fields. fields(idxStatus \<mapsto>
     (\<lambda>msg. case msg_Status msg of None \<Rightarrow> slog_Int64 fStatus 0
            | Some v \<Rightarrow> slog_Int64 fStatus v)))"

definition RequestDeliveryResponse :: FieldOpt where
  "RequestDeliveryResponse = (\<lambda>fields. fields(idxRequestDeliveryResponse \<mapsto>
     (\<lambda>msg. case msg_RequestDeliveryResponse msg of None \<Rightarrow> Attr_zero
            | Some v \<Rightarrow> slog_Int64 fRequestDeliveryResponse v)))"

definition RequestDeliveryResponseAlways :: FieldOpt where
  "RequestDeliveryResponseAlways = (\<lambda>fields. fields(idxRequestDeliveryResponse \<mapsto>
     (\<lambda>msg. case msg_RequestDeliveryResponse msg of
              None \<Rightarrow> slog_Int64 fRequestDeliveryResponse 0
            | Some v \<Rightarrow> slog_Int64 fRequestDeliveryResponse v)))"

definition Headers :: FieldOpt where
  "Headers = (\<lambda>fields. fields(idxHeaders \<mapsto>
     (\<lambda>msg. if len (msg_Headers msg) = 0 then Attr_zero
            else slog_Any_strings fHeaders (msg_Headers msg))))"

definition HeadersAlways :: FieldOpt where
  "HeadersAlways = (\<lambda>fields. fields(idxHeaders \<mapsto>
     (\<lambda>msg. slog_Any_strings fHeaders (msg_Headers msg))))"

definition Metadata :: FieldOpt where
  "Metadata = (\<lambda>fields. fields(idxMetadata \<mapsto>
     (\<lambda>msg. if len_map (msg_Metadata msg) = 0 then Attr_zero
            else slog_Any_map fMetadata (msg_Metadata msg))))"

definition MetadataAlways :: FieldOpt where
  "MetadataAlways = (\<lambda>fields. fields(idxMetadata \<mapsto>
     (\<lambda>msg. slog_Any_map fMetadata (msg_Metadata msg))))"

definition Path :: FieldOpt where
  "Path = (\<lambda>fields. fields(idxPath \<mapsto>
     (\<lambda>msg. if msg_Path msg = [] then Attr_zero
            else slog_String fPath (msg_Path msg))))"

definition PathAlways :: FieldOpt where
  "PathAlways = (\<lambda>fields. fields(idxPath \<mapsto>
     (\<lambda>msg. slog_String fPath (msg_Path msg))))"

definition PayloadAsBase64 :: FieldOpt where
  "PayloadAsBase64 = (\<lambda>fields. fields(idxPayload \<mapsto>
     (\<lambda>msg. if len (msg_Payload msg) = 0 then Attr_zero
            else slog_String fPayload (EncodeToString (msg_Payload msg)))))"

definition PayloadAsBase64Always :: FieldOpt where
  "PayloadAsBase64Always = (\<lambda>fields. fields(idxPayload \<mapsto>
     (\<lambda>msg. slog_String fPayload (EncodeToString (msg_Payload msg)))))"

definition PayloadSize :: FieldOpt where
  "PayloadSize = (\<lambda>fields. fields(idxPayloadSize \<mapsto>
     (\<lambda>msg. if len (msg_Payload msg) = 0 then Attr_zero
            else slog_Int fPayloadSize (of_nat (len (msg_Payload msg))))))"

definition PayloadSizeAlways :: FieldOpt where
  "PayloadSizeAlways = (\<lambda>fields. fields(idxPayloadSize \<mapsto>
     (\<lambda>msg. slog_Int fPayloadSize (of_nat (len (msg_Payload msg))))))"

definition ServiceName :: FieldOpt where
  "ServiceName = (\<lambda>fields. fields(idxServiceName \<mapsto>
     (\<lambda>msg. if msg_ServiceName msg = [] then Attr_zero
            else slog_String fServiceName (msg_ServiceName msg))))"

definition ServiceNameAlways :: FieldOpt where
  "ServiceNameAlways = (\<lambda>fields. fields(idxServiceName \<mapsto>
     (\<lambda>msg. slog_String fServiceName (msg_ServiceName msg))))"

definition URL :: FieldOpt where
  "URL = (\<lambda>fields. fields(idxURL \<mapsto>
     (\<lambda>msg. if msg_URL msg = [] then Attr_zero
            else slog_String fURL (msg_URL msg))))"

definition URLAlways :: FieldOpt where
  "URLAlways = (\<lambda>fields. fields(idxURL \<mapsto>
     (\<lambda>msg. slog_String fURL (msg_URL msg))))"

definition PartnerIDs :: FieldOpt where
  "PartnerIDs = (\<lambda>fields. fields(idxPartnerIDs \<mapsto>
     (\<lambda>msg. if len (msg_PartnerIDs msg) = 0 then Attr_zero
            else slog_Any_strings fPartnerIDs (msg_PartnerIDs msg))))"

definition PartnerIDsAlways :: FieldOpt where
  "PartnerIDsAlways = (\<lambda>fields. fields(idxPartnerIDs \<mapsto>
     (\<lambda>msg. slog_Any_strings fPartnerIDs (msg_PartnerIDs msg))))"

definition SessionID :: FieldOpt where
  "SessionID = (\<lambda>fields. fields(idxSessionID \<mapsto>
     (\<lambda>msg. if msg_SessionID msg = [] then Attr_zero
            else slog_String fSessionID (msg_SessionID msg))))"

definition SessionIDAlways :: FieldOpt where
  "SessionIDAlways = (\<lambda>fields. fields(idxSessionID \<mapsto>
     (\<lambda>msg. slog_String fSessionID (msg_SessionID msg))))"

definition QualityOfServiceAlways :: FieldOpt where
  "QualityOfServiceAlways = (\<lambda>fields. fields(idxQualityOfService \<mapsto>
     (\<lambda>msg. slog_Int fQualityOfService (msg_QualityOfService msg))))"

definition QualityOfService :: FieldOpt where
  "QualityOfService = QualityOfServiceAlways"

section \<open>observer.go\<close>

text \<open>
  The Observer struct. \<open>once\<close> is the state of the \<^verbatim>\<open>sync.Once\<close>: whether its
  function has run. \<open>Fields\<close> is a slice of function values, any of which may be nil;
  \<open>ob_fields\<close> is the unexported array \<^verbatim>\<open>fields\<close>.
\<close>

record 'c Observer =
  Logger :: "'c Logger option"
  Level :: int
  Message :: string
  Fields :: "FieldOpt option list"
  once :: bool
  ob_fields :: fieldArray

text \<open>
  The struct literal \<^verbatim>\<open>Observer{Logger: l, Level: v, Message: m, Fields: fs}\<close>: the
  unexported fields have their zero values.
\<close>

definition newObserver ::
  "'c Logger option \<Rightarrow> int \<Rightarrow> string \<Rightarrow> FieldOpt option list \<Rightarrow> 'c Observer" where
  "newObserver l v m fs =
     \<lparr>Logger = l, Level = v, Message = m, Fields = fs, once = False, ob_fields = (\<lambda>_. None)\<rparr>"

text \<open>The body that \<^verbatim>\<open>init\<close> passes to \<^verbatim>\<open>once.Do\<close>: the loop over \<^verbatim>\<open>ob.Fields\<close>.\<close>

fun init_loop :: "FieldOpt option list \<Rightarrow> fieldArray \<Rightarrow> fieldArray" where
  "init_loop [] fs = fs"
| "init_loop (opt # opts) fs =
     (case opt of None \<Rightarrow> init_loop opts fs | Some f \<Rightarrow> init_loop opts (f fs))"

definition init :: "'c Observer \<Rightarrow> 'c Observer" where
  "init ob = (if once ob then ob
              else ob\<lparr>once := True, ob_fields := init_loop (Fields ob) (ob_fields ob)\<rparr>)"

text \<open>
  The loop of \<^verbatim>\<open>ObserveWRP\<close> over \<^verbatim>\<open>ob.fields\<close>. The state is the array \<^verbatim>\<open>attrs\<close> and
  the index \<^verbatim>\<open>idx\<close>; \<^verbatim>\<open>attrs[idx] = attr\<close> panics when \<open>idx\<close> is out of range.
\<close>

datatype error = IndexOutOfRange

fun observe_loop ::
  "fieldFunc option list \<Rightarrow> Message \<Rightarrow> Attr list \<times> nat \<Rightarrow> error + (Attr list \<times> nat)" where
  "observe_loop [] msg (attrs, idx) = Inr (attrs, idx)"
| "observe_loop (fn # fns) msg (attrs, idx) =
     (case fn of
        None \<Rightarrow> observe_loop fns msg (attrs, idx)
      | Some f \<Rightarrow>
          (let attr = f msg in
           if Key attr \<noteq> [] then
             (if idx < length attrs
              then observe_loop fns msg (attrs[idx := attr], idx + 1)
              else Inl IndexOutOfRange)
           else observe_loop fns msg (attrs, idx)))"

text \<open>
  \<^verbatim>\<open>ObserveWRP\<close> returns nothing; the model returns the observer as the call leaves
  it and the calls of \<^verbatim>\<open>LogAttrs\<close> it made, or the panic.
\<close>

definition ObserveWRP ::
  "'c Observer \<Rightarrow> 'c \<Rightarrow> Message \<Rightarrow> error + ('c Observer \<times> 'c call list)" where
  "ObserveWRP ob ctx msg =
     (case Logger ob of
        None \<Rightarrow> Inr (ob, [])
      | Some lg \<Rightarrow>
          if \<not> Enabled lg ctx (Level ob) then Inr (ob, [])
          else
            (let ob' = init ob in
             case observe_loop (map (ob_fields ob') fieldIndices) msg
                    (replicate fieldCount Attr_zero, 0) of
               Inl e \<Rightarrow> Inl e
             | Inr (attrs, idx) \<Rightarrow>
                 Inr (ob', [LogAttrs ctx (Level ob') (Message ob') (take idx attrs)])))"

section \<open>Notions for stating the properties\<close>

text \<open>
  What one entry of the array contributes to the attribute list of a call, and the
  list that the entries contribute together, slot after slot.
\<close>

definition emitted :: "fieldFunc option \<Rightarrow> Message \<Rightarrow> Attr list" where
  "emitted fn msg =
     (case fn of None \<Rightarrow> [] | Some f \<Rightarrow> if Key (f msg) \<noteq> [] then [f msg] else [])"

definition attrsOf :: "fieldArray \<Rightarrow> Message \<Rightarrow> Attr list" where
  "attrsOf fs msg = concat (map (\<lambda>i. emitted (fs i) msg) fieldIndices)"

text \<open>The calls of the logger that a call of \<open>ObserveWRP\<close> made.\<close>

definition calls :: "error + ('c Observer \<times> 'c call list) \<Rightarrow> error + 'c call list" where
  "calls r = (case r of Inl e \<Rightarrow> Inl e | Inr (ob, cs) \<Rightarrow> Inr cs)"

text \<open>The key constant of each slot.\<close>

fun fieldKey :: "fieldIndex \<Rightarrow> string" where
  "fieldKey idxMsgType = fMsgType"
| "fieldKey idxSource = fSource"
| "fieldKey idxDestination = fDestination"
| "fieldKey idxTransactionUUID = fTransactionUUID"
| "fieldKey idxContentType = fContentType"
| "fieldKey idxAccept = fAccept"
| "fieldKey idxStatus = fStatus"
| "fieldKey idxRequestDeliveryResponse = fRequestDeliveryResponse"
| "fieldKey idxHeaders = fHeaders"
| "fieldKey idxMetadata = fMetadata"
| "fieldKey idxPath = fPath"
| "fieldKey idxPayload = fPayload"
| "fieldKey idxPayloadSize = fPayloadSize"
| "fieldKey idxServiceName = fServiceName"
| "fieldKey idxURL = fURL"
| "fieldKey idxPartnerIDs = fPartnerIDs"
| "fieldKey idxSessionID = fSessionID"
| "fieldKey idxQualityOfService = fQualityOfService"

text \<open>
  The catalog: every constructor that fields.go exports, with the slot it assigns.
\<close>

definition catalog :: "(int64 \<Rightarrow> string) \<Rightarrow> (fieldIndex \<times> FieldOpt) list" where
  "catalog String =
     [(idxMsgType, MessageType), (idxMsgType, MessageTypeAsString String),
      (idxMsgType, MessageTypeAsNum),
      (idxSource, Source), (idxSource, SourceAlways),
      (idxDestination, Destination), (idxDestination, DestinationAlways),
      (idxTransactionUUID, TransactionUUID), (idxTransactionUUID, TransactionUUIDAlways),
      (idxContentType, ContentType), (idxContentType, ContentTypeAlways),
      (idxAccept, Accept), (idxAccept, AcceptAlways),
      (idxStatus, Status), (idxStatus, StatusAlways),
      (idxRequestDeliveryResponse, RequestDeliveryResponse),
      (idxRequestDeliveryResponse, RequestDeliveryResponseAlways),
      (idxHeaders, Headers), (idxHeaders, HeadersAlways),
      (idxMetadata, Metadata), (idxMetadata, MetadataAlways),
      (idxPath, Path), (idxPath, PathAlways),
      (idxPayload, PayloadAsBase64), (idxPayload, PayloadAsBase64Always),
      (idxPayloadSize, PayloadSize), (idxPayloadSize, PayloadSizeAlways),
      (idxServiceName, ServiceName), (idxServiceName, ServiceNameAlways),
      (idxURL, URL), (idxURL, URLAlways),
      (idxPartnerIDs, PartnerIDs), (idxPartnerIDs, PartnerIDsAlways),
      (idxSessionID, SessionID), (idxSessionID, SessionIDAlways),
      (idxQualityOfService, QualityOfService),
      (idxQualityOfService, QualityOfServiceAlways)]"

text \<open>
  An entry of \<open>Fields\<close> is nil or a constructor of the catalog; \<open>fromCatalogNot S\<close>
  moreover excludes the constructors of slot \<open>S\<close>.
\<close>

definition fromCatalog :: "(int64 \<Rightarrow> string) \<Rightarrow> FieldOpt option \<Rightarrow> bool" where
  "fromCatalog String opt =
     (case opt of None \<Rightarrow> True | Some g \<Rightarrow> g \<in> snd ` set (catalog String))"

definition fromCatalogNot ::
  "(int64 \<Rightarrow> string) \<Rightarrow> fieldIndex \<Rightarrow> FieldOpt option \<Rightarrow> bool" where
  "fromCatalogNot String S opt =
     (case opt of None \<Rightarrow> True
      | Some g \<Rightarrow> g \<in> snd ` set (filter (\<lambda>(T, h). T \<noteq> S) (catalog String)))"

text \<open>
  The invariant of the array: the selector of a slot returns the empty key or the key
  of its slot.
\<close>

definition keyInv :: "fieldArray \<Rightarrow> bool" where
  "keyInv fs = (\<forall>i f msg. fs i = Some f \<longrightarrow> Key (f msg) = [] \<or> Key (f msg) = fieldKey i)"

section \<open>The loops\<close>

lemmas fname_defs = fMsgType_def fSource_def fDestination_def fTransactionUUID_def
  fContentType_def fAccept_def fStatus_def fRequestDeliveryResponse_def fHeaders_def
  fMetadata_def fPath_def fPayload_def fPayloadSize_def fServiceName_def fURL_def
  fPartnerIDs_def fSessionID_def fQualityOfService_def

lemmas slog_defs = Attr_zero_def slog_String_def slog_Int64_def slog_Int_def
  slog_Any_strings_def slog_Any_map_def

lemmas opt_defs = MessageType_def MessageTypeAsString_def MessageTypeAsNum_def
  Source_def SourceAlways_def Destination_def DestinationAlways_def
  TransactionUUID_def TransactionUUIDAlways_def ContentType_def ContentTypeAlways_def
  Accept_def AcceptAlways_def Status_def StatusAlways_def
  RequestDeliveryResponse_def RequestDeliveryResponseAlways_def
  Headers_def HeadersAlways_def Metadata_def MetadataAlways_def Path_def PathAlways_def
  PayloadAsBase64_def PayloadAsBase64Always_def PayloadSize_def PayloadSizeAlways_def
  ServiceName_def ServiceNameAlways_def URL_def URLAlways_def
  PartnerIDs_def PartnerIDsAlways_def SessionID_def SessionIDAlways_def
  QualityOfService_def QualityOfServiceAlways_def

text \<open>The encoder on the payload of the package's own test.\<close>

lemma EncodeToString_test_payload:
  "EncodeToString (Some [116, 101, 115, 116, 32, 112, 97, 121, 108, 111, 97, 100]) =
     ''dGVzdCBwYXlsb2Fk''"
  by (simp add: EncodeToString_def b64_def encodeStd_def)

lemma EncodeToString_padding:
  "EncodeToString (Some [97]) = ''YQ=='' \<and> EncodeToString (Some [97, 98]) = ''YWI=''"
  by (simp add: EncodeToString_def b64_def encodeStd_def)

lemma length_emitted: "length (emitted fn msg) \<le> 1"
  by (simp add: emitted_def split: option.splits)

lemma observe_loop_run:
  "idx + length fns \<le> length attrs \<Longrightarrow>
   \<exists>attrs'. observe_loop fns msg (attrs, idx) =
       Inr (attrs', idx + length (concat (map (\<lambda>fn. emitted fn msg) fns)))
     \<and> length attrs' = length attrs
     \<and> take (idx + length (concat (map (\<lambda>fn. emitted fn msg) fns))) attrs' =
         take idx attrs @ concat (map (\<lambda>fn. emitted fn msg) fns)"
proof (induction fns arbitrary: attrs idx)
  case Nil
  then show ?case by simp
next
  case (Cons fn fns)
  show ?case
  proof (cases fn)
    case None
    with Cons.IH[of idx attrs] Cons.prems show ?thesis by (simp add: emitted_def)
  next
    case (Some f)
    show ?thesis
    proof (cases "Key (f msg) = []")
      case True
      with Some Cons.IH[of idx attrs] Cons.prems show ?thesis by (simp add: emitted_def)
    next
      case False
      from Cons.prems have lt: "idx < length attrs" by simp
      from Cons.prems have "Suc idx + length fns \<le> length (attrs[idx := f msg])" by simp
      from Cons.IH[OF this] obtain attrs' where
        run: "observe_loop fns msg (attrs[idx := f msg], Suc idx) =
           Inr (attrs', Suc idx + length (concat (map (\<lambda>fn. emitted fn msg) fns)))"
        and ln: "length attrs' = length (attrs[idx := f msg])"
        and tk: "take (Suc idx + length (concat (map (\<lambda>fn. emitted fn msg) fns))) attrs' =
           take (Suc idx) (attrs[idx := f msg]) @ concat (map (\<lambda>fn. emitted fn msg) fns)"
        by blast
      have "take (Suc idx) (attrs[idx := f msg]) = take idx attrs @ [f msg]"
        using lt by (simp add: take_Suc_conv_app_nth)
      with run ln tk Some False lt show ?thesis by (simp add: emitted_def)
    qed
  qed
qed

lemma length_fieldIndices: "length fieldIndices = fieldCount"
  by (simp add: fieldIndices_def fieldCount_def)

lemma length_concat_emitted:
  "length (concat (map (\<lambda>i. emitted (fs i) msg) is)) \<le> length is"
proof (induction "is")
  case Nil
  then show ?case by simp
next
  case (Cons i "is")
  with length_emitted[of "fs i" msg] show ?case by simp
qed

lemma length_attrsOf: "length (attrsOf fs msg) \<le> fieldCount"
  using length_concat_emitted[of fs msg fieldIndices]
  by (simp add: attrsOf_def length_fieldIndices)

lemma observe_loop_fields:
  "\<exists>attrs. observe_loop (map fs fieldIndices) msg (replicate fieldCount Attr_zero, 0) =
       Inr (attrs, length (attrsOf fs msg))
     \<and> take (length (attrsOf fs msg)) attrs = attrsOf fs msg"
proof -
  have "0 + length (map fs fieldIndices) \<le> length (replicate fieldCount Attr_zero)"
    by (simp add: length_fieldIndices)
  from observe_loop_run[OF this, of msg] show ?thesis
    by (auto simp: attrsOf_def comp_def)
qed

lemma ObserveWRP_eq:
  "ObserveWRP ob ctx msg =
     (case Logger ob of
        None \<Rightarrow> Inr (ob, [])
      | Some lg \<Rightarrow>
          if \<not> Enabled lg ctx (Level ob) then Inr (ob, [])
          else Inr (init ob, [LogAttrs ctx (Level ob) (Message ob) (attrsOf (ob_fields (init ob)) msg)]))"
proof -
  obtain attrs where "observe_loop (map (ob_fields (init ob)) fieldIndices) msg (replicate fieldCount Attr_zero, 0) =
       Inr (attrs, length (attrsOf (ob_fields (init ob)) msg))"
     "take (length (attrsOf (ob_fields (init ob)) msg)) attrs = attrsOf (ob_fields (init ob)) msg"
    using observe_loop_fields by blast
  moreover have "Level (init ob) = Level ob" "Message (init ob) = Message ob"
    by (simp_all add: init_def)
  ultimately show ?thesis
    by (simp add: ObserveWRP_def Let_def split: option.splits)
qed

section \<open>The slots and the catalog\<close>

lemma distinct_fieldIndices: "distinct fieldIndices"
  by (simp add: fieldIndices_def)

lemma set_fieldIndices: "set fieldIndices = UNIV"
proof -
  have "i \<in> set fieldIndices" for i
    by (cases i) (simp_all add: fieldIndices_def)
  then show ?thesis by blast
qed

lemma distinct_fieldKeys: "distinct (map fieldKey fieldIndices)"
  by (simp add: fieldIndices_def fname_defs)

lemma inj_fieldKey: "inj fieldKey"
proof -
  have "inj_on fieldKey (set fieldIndices)"
    using distinct_fieldKeys distinct_fieldIndices by (simp add: distinct_map)
  then show ?thesis by (simp add: set_fieldIndices)
qed

lemma fieldKey_nonempty: "fieldKey i \<noteq> []"
  by (cases i) (simp_all add: fname_defs)

lemma catalog_assigns:
  assumes "(S, g) \<in> set (catalog String)"
  shows "\<exists>f. g = (\<lambda>fs. fs(S \<mapsto> f)) \<and> (\<forall>msg. Key (f msg) = [] \<or> Key (f msg) = fieldKey S)"
  using assms unfolding catalog_def
  apply (simp only: set_simps insert_iff empty_iff prod.inject)
  apply (elim disjE conjE FalseE)
  apply (simp_all only: opt_defs)
  apply (rule exI, rule conjI, rule refl, simp add: slog_defs split: option.splits)+
  done

lemma keyInv_empty: "keyInv (\<lambda>_. None)"
  by (simp add: keyInv_def)

lemma keyInv_assign:
  "keyInv fs \<Longrightarrow> \<forall>msg. Key (f msg) = [] \<or> Key (f msg) = fieldKey S \<Longrightarrow> keyInv (fs(S \<mapsto> f))"
  by (simp add: keyInv_def)

lemma fromCatalog_Some:
  "fromCatalog String (Some g) \<Longrightarrow> \<exists>S. (S, g) \<in> set (catalog String)"
  by (auto simp: fromCatalog_def)

lemma fromCatalogNot_Some:
  "fromCatalogNot String S (Some g) \<Longrightarrow> \<exists>T. T \<noteq> S \<and> (T, g) \<in> set (catalog String)"
  by (auto simp: fromCatalogNot_def)

lemma init_loop_append: "init_loop (xs @ ys) fs = init_loop ys (init_loop xs fs)"
  by (induction xs arbitrary: fs) (auto split: option.splits)

lemma keyInv_init_loop:
  "list_all (fromCatalog String) cfg \<Longrightarrow> keyInv fs \<Longrightarrow> keyInv (init_loop cfg fs)"
proof (induction cfg arbitrary: fs)
  case Nil
  then show ?case by simp
next
  case (Cons opt cfg)
  show ?case
  proof (cases opt)
    case None
    with Cons show ?thesis by simp
  next
    case (Some g)
    from Cons.prems Some have "fromCatalog String (Some g)" by simp
    from fromCatalog_Some[OF this] obtain S where "(S, g) \<in> set (catalog String)"
      by blast
    from catalog_assigns[OF this] obtain f where
      g: "g = (\<lambda>fs. fs(S \<mapsto> f))" and k: "\<forall>msg. Key (f msg) = [] \<or> Key (f msg) = fieldKey S"
      by blast
    have "keyInv (g fs)" using keyInv_assign[OF Cons.prems(2) k] g by simp
    with Cons Some show ?thesis by simp
  qed
qed

lemma init_loop_other_slots:
  "list_all (fromCatalogNot String S) zs \<Longrightarrow> init_loop zs fs S = fs S"
proof (induction zs arbitrary: fs)
  case Nil
  then show ?case by simp
next
  case (Cons opt zs)
  show ?case
  proof (cases opt)
    case None
    with Cons show ?thesis by simp
  next
    case (Some g)
    from Cons.prems Some have "fromCatalogNot String S (Some g)" by simp
    from fromCatalogNot_Some[OF this] obtain T where T: "T \<noteq> S" "(T, g) \<in> set (catalog String)"
      by blast
    from catalog_assigns[OF T(2)] obtain f where g: "g = (\<lambda>fs. fs(T \<mapsto> f))"
      by blast
    have "init_loop zs (g fs) S = g fs S" using Cons by simp
    with g T(1) Some show ?thesis by simp
  qed
qed

lemma emitted_cases:
  "emitted fn msg = [] \<or> (\<exists>f. fn = Some f \<and> Key (f msg) \<noteq> [] \<and> emitted fn msg = [f msg])"
  by (cases fn) (simp_all add: emitted_def)

lemma emitted_key:
  "keyInv t \<Longrightarrow> a \<in> set (emitted (t i) msg) \<Longrightarrow> Key a = fieldKey i"
proof -
  assume inv: "keyInv t" and a: "a \<in> set (emitted (t i) msg)"
  from a emitted_cases[of "t i" msg]
  obtain f where f: "t i = Some f" "Key (f msg) \<noteq> []" "a = f msg"
    by auto
  from inv f(1) have "Key (f msg) = [] \<or> Key (f msg) = fieldKey i"
    unfolding keyInv_def by blast
  with f show ?thesis by simp
qed

lemma filter_key_concat:
  assumes "keyInv t" "distinct is"
  shows "filter (\<lambda>a. Key a = fieldKey S) (concat (map (\<lambda>i. emitted (t i) msg) is)) =
           (if S \<in> set is then emitted (t S) msg else [])"
  using assms(2)
proof (induction "is")
  case Nil
  then show ?case by simp
next
  case (Cons i "is")
  have own: "filter (\<lambda>a. Key a = fieldKey S) (emitted (t i) msg) =
               (if i = S then emitted (t i) msg else [])"
  proof (cases "i = S")
    case True
    then show ?thesis using emitted_key[OF assms(1)] by (simp add: filter_id_conv)
  next
    case False
    then have "fieldKey i \<noteq> fieldKey S" using inj_fieldKey by (simp add: inj_eq)
    then show ?thesis using False emitted_key[OF assms(1)] by (auto simp: filter_empty_conv)
  qed
  from Cons show ?case by (auto simp: own)
qed

lemma filter_key_attrsOf:
  "keyInv t \<Longrightarrow> filter (\<lambda>a. Key a = fieldKey S) (attrsOf t msg) = emitted (t S) msg"
  using filter_key_concat[of t fieldIndices S msg]
  by (simp add: attrsOf_def distinct_fieldIndices set_fieldIndices)

lemma keys_subseq_concat:
  assumes "keyInv t"
  shows "subseq (map Key (concat (map (\<lambda>i. emitted (t i) msg) is))) (map fieldKey is)"
proof (induction "is")
  case Nil
  then show ?case by simp
next
  case (Cons i "is")
  consider "emitted (t i) msg = []" | a where "emitted (t i) msg = [a]"
    using emitted_cases[of "t i" msg] by blast
  then show ?case
  proof cases
    case 1
    with Cons show ?thesis by (simp add: list_emb_Cons)
  next
    case 2
    then have "Key a = fieldKey i" using emitted_key[OF assms, of a i msg] by simp
    with 2 Cons show ?thesis by simp
  qed
qed

lemma keys_subseq_attrsOf:
  "keyInv t \<Longrightarrow> subseq (map Key (attrsOf t msg)) (map fieldKey fieldIndices)"
  by (simp add: attrsOf_def keys_subseq_concat)

lemma distinct_keys_attrsOf: "keyInv t \<Longrightarrow> distinct (map Key (attrsOf t msg))"
  using keys_subseq_attrsOf[of t msg] distinct_fieldKeys subseqs_distinctD
  by (metis in_set_subseqs)

section \<open>One call of ObserveWRP\<close>

lemma init_simps:
  "Logger (init ob) = Logger ob" "Level (init ob) = Level ob"
  "Message (init ob) = Message ob" "Fields (init ob) = Fields ob"
  by (simp_all add: init_def)

lemma ObserveWRP_fast_exit:
  "Logger ob = None \<or> (\<exists>lg. Logger ob = Some lg \<and> \<not> Enabled lg ctx (Level ob)) \<Longrightarrow>
   ObserveWRP ob ctx msg = Inr (ob, [])"
  by (auto simp: ObserveWRP_eq)

lemma ObserveWRP_enabled:
  "Logger ob = Some lg \<Longrightarrow> Enabled lg ctx (Level ob) \<Longrightarrow>
   ObserveWRP ob ctx msg =
     Inr (init ob, [LogAttrs ctx (Level ob) (Message ob) (attrsOf (ob_fields (init ob)) msg)])"
  by (simp add: ObserveWRP_eq)

lemma Fields_frozen_after_compile:
  "once ob \<Longrightarrow> calls (ObserveWRP (ob\<lparr>Fields := F\<rparr>) ctx msg) = calls (ObserveWRP ob ctx msg)"
  by (simp add: calls_def ObserveWRP_eq init_def split: option.splits)

section \<open>The worked examples\<close>

text \<open>
  Claim C6. An observer with the fields MessageType, Source, Destination and
  TransactionUUID, on a logger that handles level Info, is given the message of type 3
  with a source, a destination and a transaction UUID. It makes one call of LogAttrs,
  with the attributes msg_type = 3, source, dest and transaction_uuid carrying those
  values, in this order.
\<close>

theorem example_plain_fields:
  "calls (ObserveWRP
     (newObserver (Some (recordHandler LevelInfo)) LevelInfo ''wrp message''
        [Some MessageType, Some Source, Some Destination, Some TransactionUUID])
     ctx
     (Message_zero\<lparr>msg_Type := 3,
        msg_Source := ''dns:talaria.example.com/service'',
        msg_Destination := ''event:device-status/mac:112233445566/online'',
        msg_TransactionUUID := ''546514d4-9cb6-41c9-88ca-ccd4c130c525''\<rparr>))
   = Inr [LogAttrs ctx LevelInfo ''wrp message''
        [\<lparr>Key = ''msg_type'', Value = Int64Value 3\<rparr>,
         \<lparr>Key = ''source'', Value = StringValue ''dns:talaria.example.com/service''\<rparr>,
         \<lparr>Key = ''dest'',
            Value = StringValue ''event:device-status/mac:112233445566/online''\<rparr>,
         \<lparr>Key = ''transaction_uuid'',
            Value = StringValue ''546514d4-9cb6-41c9-88ca-ccd4c130c525''\<rparr>]]"
  by (simp add: calls_def ObserveWRP_eq attrsOf_def emitted_def newObserver_def
      recordHandler_def LevelInfo_def init_def fieldIndices_def Message_zero_def
      opt_defs slog_defs fname_defs)

text \<open>
  Claim C7. An observer with the fields MessageType, Source, DestinationAlways and
  StatusAlways is given the message of type 4 that has a source and neither a
  destination nor a status. It makes one call of LogAttrs, with the attributes
  msg_type = 4, source, dest = the empty string and status = 0, in this order.
\<close>

theorem example_always_fields:
  "calls (ObserveWRP
     (newObserver (Some (recordHandler LevelInfo)) LevelInfo ''wrp message''
        [Some MessageType, Some Source, Some DestinationAlways, Some StatusAlways])
     ctx
     (Message_zero\<lparr>msg_Type := 4,
        msg_Source := ''dns:talaria.example.com/service''\<rparr>))
   = Inr [LogAttrs ctx LevelInfo ''wrp message''
        [\<lparr>Key = ''msg_type'', Value = Int64Value 4\<rparr>,
         \<lparr>Key = ''source'', Value = StringValue ''dns:talaria.example.com/service''\<rparr>,
         \<lparr>Key = ''dest'', Value = StringValue []\<rparr>,
         \<lparr>Key = ''status'', Value = Int64Value 0\<rparr>]]"
  by (simp add: calls_def ObserveWRP_eq attrsOf_def emitted_def newObserver_def
      recordHandler_def LevelInfo_def init_def fieldIndices_def Message_zero_def
      opt_defs slog_defs fname_defs)

section \<open>Emission\<close>

text \<open>
  Claim C5. A call of ObserveWRP calls LogAttrs at most once, and exactly once if and
  only if the observer has a logger and the logger reports the observer's level
  enabled. Otherwise the call returns the observer as it was and no call of the logger:
  nothing was compiled, and the result is the same for every message. When the logger
  is enabled the one call carries the attribute list of the compiled array, also when
  that list is empty.
\<close>

theorem emission_iff_enabled:
  "(\<exists>cs. calls (ObserveWRP ob ctx msg) = Inr cs \<and> length cs \<le> 1
       \<and> (length cs = 1) = (\<exists>lg. Logger ob = Some lg \<and> Enabled lg ctx (Level ob)))
   \<and> (\<not> (\<exists>lg. Logger ob = Some lg \<and> Enabled lg ctx (Level ob)) \<longrightarrow>
        ObserveWRP ob ctx msg = Inr (ob, []))
   \<and> ((\<exists>lg. Logger ob = Some lg \<and> Enabled lg ctx (Level ob)) \<longrightarrow>
        ObserveWRP ob ctx msg =
          Inr (init ob, [LogAttrs ctx (Level ob) (Message ob) (attrsOf (ob_fields (init ob)) msg)]))
   \<and> ((\<exists>lg. Logger ob = Some lg \<and> Enabled lg ctx (Level ob))
        \<and> attrsOf (ob_fields (init ob)) msg = [] \<longrightarrow>
        calls (ObserveWRP ob ctx msg) = Inr [LogAttrs ctx (Level ob) (Message ob) []])"
proof (cases "\<exists>lg. Logger ob = Some lg \<and> Enabled lg ctx (Level ob)")
  case True
  then obtain lg where "Logger ob = Some lg" "Enabled lg ctx (Level ob)" by blast
  from ObserveWRP_enabled[OF this, of msg] True show ?thesis
    by (simp add: calls_def)
next
  case False
  then have "Logger ob = None \<or> (\<exists>lg. Logger ob = Some lg \<and> \<not> Enabled lg ctx (Level ob))"
    by (cases "Logger ob") auto
  from ObserveWRP_fast_exit[OF this, of msg] False show ?thesis
    by (simp add: calls_def)
qed

theorem emission_iff_enabled_witness:
  "calls (ObserveWRP (newObserver (Some (recordHandler LevelInfo)) LevelInfo ''wrp message''
            [Some Source]) () Message_zero)
     = Inr [LogAttrs () LevelInfo ''wrp message'' []]
   \<and> ObserveWRP (newObserver (Some (recordHandler LevelWarn)) LevelInfo ''wrp message''
            [Some Source]) () Message_zero
     = Inr (newObserver (Some (recordHandler LevelWarn)) LevelInfo ''wrp message''
            [Some Source], [])
   \<and> ObserveWRP (newObserver None LevelInfo ''wrp message'' [Some Source]) () Message_zero
     = Inr (newObserver None LevelInfo ''wrp message'' [Some Source], [])"
proof -
  let ?on = "newObserver (Some (recordHandler LevelInfo)) LevelInfo ''wrp message'' [Some Source] :: unit Observer"
  let ?off = "newObserver (Some (recordHandler LevelWarn)) LevelInfo ''wrp message'' [Some Source] :: unit Observer"
  let ?nil = "newObserver None LevelInfo ''wrp message'' [Some Source] :: unit Observer"
  have en: "\<exists>lg. Logger ?on = Some lg \<and> Enabled lg () (Level ?on)"
    by (simp add: newObserver_def recordHandler_def LevelInfo_def)
  have emp: "attrsOf (ob_fields (init ?on)) Message_zero = []"
    by (simp add: attrsOf_def emitted_def newObserver_def init_def fieldIndices_def
        Message_zero_def Source_def slog_defs)
  have dis: "\<not> (\<exists>lg. Logger ?off = Some lg \<and> Enabled lg () (Level ?off))"
    by (simp add: newObserver_def recordHandler_def LevelInfo_def LevelWarn_def)
  have nl: "\<not> (\<exists>lg. Logger ?nil = Some lg \<and> Enabled lg () (Level ?nil))"
    by (simp add: newObserver_def)
  from emission_iff_enabled[of ?on "()" Message_zero] en emp
  have 1: "calls (ObserveWRP ?on () Message_zero) = Inr [LogAttrs () (Level ?on) (Message ?on) []]"
    by blast
  from emission_iff_enabled[of ?off "()" Message_zero] dis
  have 2: "ObserveWRP ?off () Message_zero = Inr (?off, [])" by blast
  from emission_iff_enabled[of ?nil "()" Message_zero] nl
  have 3: "ObserveWRP ?nil () Message_zero = Inr (?nil, [])" by blast
  from 1 have 4: "calls (ObserveWRP ?on () Message_zero) = Inr [LogAttrs () LevelInfo ''wrp message'' []]"
    by (simp add: newObserver_def)
  from 4 2 3 show ?thesis by simp
qed

section \<open>Plain and always constructors\<close>

lemma omit_Source:
  "msg_Source msg = [] \<Longrightarrow> emitted (Source fs idxSource) msg = []
     \<and> emitted (SourceAlways fs idxSource) msg = [\<lparr>Key = ''source'', Value = StringValue []\<rparr>]"
  by (simp add: emitted_def Source_def SourceAlways_def slog_defs fSource_def)

lemma omit_Destination:
  "msg_Destination msg = [] \<Longrightarrow> emitted (Destination fs idxDestination) msg = []
     \<and> emitted (DestinationAlways fs idxDestination) msg = [\<lparr>Key = ''dest'', Value = StringValue []\<rparr>]"
  by (simp add: emitted_def Destination_def DestinationAlways_def slog_defs fDestination_def)

lemma omit_TransactionUUID:
  "msg_TransactionUUID msg = [] \<Longrightarrow> emitted (TransactionUUID fs idxTransactionUUID) msg = []
     \<and> emitted (TransactionUUIDAlways fs idxTransactionUUID) msg =
         [\<lparr>Key = ''transaction_uuid'', Value = StringValue []\<rparr>]"
  by (simp add: emitted_def TransactionUUID_def TransactionUUIDAlways_def slog_defs fTransactionUUID_def)

lemma omit_ContentType:
  "msg_ContentType msg = [] \<Longrightarrow> emitted (ContentType fs idxContentType) msg = []
     \<and> emitted (ContentTypeAlways fs idxContentType) msg =
         [\<lparr>Key = ''content_type'', Value = StringValue []\<rparr>]"
  by (simp add: emitted_def ContentType_def ContentTypeAlways_def slog_defs fContentType_def)

lemma omit_Accept:
  "msg_Accept msg = [] \<Longrightarrow> emitted (Accept fs idxAccept) msg = []
     \<and> emitted (AcceptAlways fs idxAccept) msg = [\<lparr>Key = ''accept'', Value = StringValue []\<rparr>]"
  by (simp add: emitted_def Accept_def AcceptAlways_def slog_defs fAccept_def)

lemma omit_Status:
  "msg_Status msg = None \<Longrightarrow> emitted (Status fs idxStatus) msg = []
     \<and> emitted (StatusAlways fs idxStatus) msg = [\<lparr>Key = ''status'', Value = Int64Value 0\<rparr>]"
  by (simp add: emitted_def Status_def StatusAlways_def slog_defs fStatus_def)

lemma omit_RequestDeliveryResponse:
  "msg_RequestDeliveryResponse msg = None \<Longrightarrow>
     emitted (RequestDeliveryResponse fs idxRequestDeliveryResponse) msg = []
     \<and> emitted (RequestDeliveryResponseAlways fs idxRequestDeliveryResponse) msg =
         [\<lparr>Key = ''rdr'', Value = Int64Value 0\<rparr>]"
  by (simp add: emitted_def RequestDeliveryResponse_def RequestDeliveryResponseAlways_def
      slog_defs fRequestDeliveryResponse_def)

lemma len_0_iff: "len s = 0 \<longleftrightarrow> s = None \<or> s = Some []"
  by (cases s) (simp_all add: len_def)

lemma len_map_0_iff: "len_map m = 0 \<longleftrightarrow> m = None \<or> m = Some fmempty"
proof (cases m)
  case None
  then show ?thesis by (simp add: len_map_def)
next
  case (Some f)
  have "fcard (fmdom f) = 0 \<longleftrightarrow> f = fmempty"
    by (metis fcard_fempty fcard_0_eq fmdom_empty fmrestrict_fset_dom fmrestrict_fset_null)
  with Some show ?thesis by (simp add: len_map_def)
qed

lemma omit_Headers:
  "len (msg_Headers msg) = 0 \<Longrightarrow> emitted (Headers fs idxHeaders) msg = []
     \<and> emitted (HeadersAlways fs idxHeaders) msg =
         [\<lparr>Key = ''headers'', Value = AnyValue (Strings (msg_Headers msg))\<rparr>]
     \<and> (msg_Headers msg = None \<or> msg_Headers msg = Some [])"
  by (simp add: emitted_def Headers_def HeadersAlways_def slog_defs fHeaders_def len_0_iff)

lemma omit_Metadata:
  "len_map (msg_Metadata msg) = 0 \<Longrightarrow> emitted (Metadata fs idxMetadata) msg = []
     \<and> emitted (MetadataAlways fs idxMetadata) msg =
         [\<lparr>Key = ''metadata'', Value = AnyValue (StringMap (msg_Metadata msg))\<rparr>]
     \<and> (msg_Metadata msg = None \<or> msg_Metadata msg = Some fmempty)"
  using len_map_0_iff[of "msg_Metadata msg"]
  by (simp add: emitted_def Metadata_def MetadataAlways_def slog_defs fMetadata_def)

lemma omit_Path:
  "msg_Path msg = [] \<Longrightarrow> emitted (Path fs idxPath) msg = []
     \<and> emitted (PathAlways fs idxPath) msg = [\<lparr>Key = ''path'', Value = StringValue []\<rparr>]"
  by (simp add: emitted_def Path_def PathAlways_def slog_defs fPath_def)

lemma EncodeToString_empty: "len p = 0 \<Longrightarrow> EncodeToString p = []"
  by (cases p) (simp_all add: len_def EncodeToString_def)

lemma omit_Payload:
  "len (msg_Payload msg) = 0 \<Longrightarrow> emitted (PayloadAsBase64 fs idxPayload) msg = []
     \<and> emitted (PayloadAsBase64Always fs idxPayload) msg =
         [\<lparr>Key = ''payload'', Value = StringValue []\<rparr>]"
  by (simp add: emitted_def PayloadAsBase64_def PayloadAsBase64Always_def slog_defs
      fPayload_def EncodeToString_empty)

lemma omit_PayloadSize:
  "len (msg_Payload msg) = 0 \<Longrightarrow> emitted (PayloadSize fs idxPayloadSize) msg = []
     \<and> emitted (PayloadSizeAlways fs idxPayloadSize) msg =
         [\<lparr>Key = ''payload_size'', Value = Int64Value 0\<rparr>]"
  by (simp add: emitted_def PayloadSize_def PayloadSizeAlways_def slog_defs fPayloadSize_def)

lemma omit_ServiceName:
  "msg_ServiceName msg = [] \<Longrightarrow> emitted (ServiceName fs idxServiceName) msg = []
     \<and> emitted (ServiceNameAlways fs idxServiceName) msg =
         [\<lparr>Key = ''service_name'', Value = StringValue []\<rparr>]"
  by (simp add: emitted_def ServiceName_def ServiceNameAlways_def slog_defs fServiceName_def)

lemma omit_URL:
  "msg_URL msg = [] \<Longrightarrow> emitted (URL fs idxURL) msg = []
     \<and> emitted (URLAlways fs idxURL) msg = [\<lparr>Key = ''url'', Value = StringValue []\<rparr>]"
  by (simp add: emitted_def URL_def URLAlways_def slog_defs fURL_def)

lemma omit_PartnerIDs:
  "len (msg_PartnerIDs msg) = 0 \<Longrightarrow> emitted (PartnerIDs fs idxPartnerIDs) msg = []
     \<and> emitted (PartnerIDsAlways fs idxPartnerIDs) msg =
         [\<lparr>Key = ''partner_ids'', Value = AnyValue (Strings (msg_PartnerIDs msg))\<rparr>]
     \<and> (msg_PartnerIDs msg = None \<or> msg_PartnerIDs msg = Some [])"
  by (simp add: emitted_def PartnerIDs_def PartnerIDsAlways_def slog_defs fPartnerIDs_def len_0_iff)

lemma omit_SessionID:
  "msg_SessionID msg = [] \<Longrightarrow> emitted (SessionID fs idxSessionID) msg = []
     \<and> emitted (SessionIDAlways fs idxSessionID) msg =
         [\<lparr>Key = ''session_id'', Value = StringValue []\<rparr>]"
  by (simp add: emitted_def SessionID_def SessionIDAlways_def slog_defs fSessionID_def)

text \<open>
  Claim C4. For each of the sixteen slots that have a plain and an always constructor:
  when the field of the message is empty (the empty string, a nil pointer, a slice or a
  map of length 0), the slot assigned by the plain constructor contributes no attribute,
  and the slot assigned by the always constructor contributes one attribute under the
  slot's key, whose value is the empty string for a string field and for the base64
  payload, 0 for a pointer field and for the payload size, and the nil or empty
  container itself for headers, metadata and partner ids.
\<close>

theorem omit_laws:
  "(msg_Source msg = [] \<longrightarrow> emitted (Source fs idxSource) msg = []
      \<and> emitted (SourceAlways fs idxSource) msg = [\<lparr>Key = ''source'', Value = StringValue []\<rparr>])
   \<and> (msg_Destination msg = [] \<longrightarrow> emitted (Destination fs idxDestination) msg = []
      \<and> emitted (DestinationAlways fs idxDestination) msg =
          [\<lparr>Key = ''dest'', Value = StringValue []\<rparr>])
   \<and> (msg_TransactionUUID msg = [] \<longrightarrow> emitted (TransactionUUID fs idxTransactionUUID) msg = []
      \<and> emitted (TransactionUUIDAlways fs idxTransactionUUID) msg =
          [\<lparr>Key = ''transaction_uuid'', Value = StringValue []\<rparr>])
   \<and> (msg_ContentType msg = [] \<longrightarrow> emitted (ContentType fs idxContentType) msg = []
      \<and> emitted (ContentTypeAlways fs idxContentType) msg =
          [\<lparr>Key = ''content_type'', Value = StringValue []\<rparr>])
   \<and> (msg_Accept msg = [] \<longrightarrow> emitted (Accept fs idxAccept) msg = []
      \<and> emitted (AcceptAlways fs idxAccept) msg = [\<lparr>Key = ''accept'', Value = StringValue []\<rparr>])
   \<and> (msg_Status msg = None \<longrightarrow> emitted (Status fs idxStatus) msg = []
      \<and> emitted (StatusAlways fs idxStatus) msg = [\<lparr>Key = ''status'', Value = Int64Value 0\<rparr>])
   \<and> (msg_RequestDeliveryResponse msg = None \<longrightarrow>
        emitted (RequestDeliveryResponse fs idxRequestDeliveryResponse) msg = []
      \<and> emitted (RequestDeliveryResponseAlways fs idxRequestDeliveryResponse) msg =
          [\<lparr>Key = ''rdr'', Value = Int64Value 0\<rparr>])
   \<and> (len (msg_Headers msg) = 0 \<longrightarrow> emitted (Headers fs idxHeaders) msg = []
      \<and> emitted (HeadersAlways fs idxHeaders) msg =
          [\<lparr>Key = ''headers'', Value = AnyValue (Strings (msg_Headers msg))\<rparr>]
      \<and> (msg_Headers msg = None \<or> msg_Headers msg = Some []))
   \<and> (len_map (msg_Metadata msg) = 0 \<longrightarrow> emitted (Metadata fs idxMetadata) msg = []
      \<and> emitted (MetadataAlways fs idxMetadata) msg =
          [\<lparr>Key = ''metadata'', Value = AnyValue (StringMap (msg_Metadata msg))\<rparr>]
      \<and> (msg_Metadata msg = None \<or> msg_Metadata msg = Some fmempty))
   \<and> (msg_Path msg = [] \<longrightarrow> emitted (Path fs idxPath) msg = []
      \<and> emitted (PathAlways fs idxPath) msg = [\<lparr>Key = ''path'', Value = StringValue []\<rparr>])
   \<and> (len (msg_Payload msg) = 0 \<longrightarrow> emitted (PayloadAsBase64 fs idxPayload) msg = []
      \<and> emitted (PayloadAsBase64Always fs idxPayload) msg =
          [\<lparr>Key = ''payload'', Value = StringValue []\<rparr>])
   \<and> (len (msg_Payload msg) = 0 \<longrightarrow> emitted (PayloadSize fs idxPayloadSize) msg = []
      \<and> emitted (PayloadSizeAlways fs idxPayloadSize) msg =
          [\<lparr>Key = ''payload_size'', Value = Int64Value 0\<rparr>])
   \<and> (msg_ServiceName msg = [] \<longrightarrow> emitted (ServiceName fs idxServiceName) msg = []
      \<and> emitted (ServiceNameAlways fs idxServiceName) msg =
          [\<lparr>Key = ''service_name'', Value = StringValue []\<rparr>])
   \<and> (msg_URL msg = [] \<longrightarrow> emitted (URL fs idxURL) msg = []
      \<and> emitted (URLAlways fs idxURL) msg = [\<lparr>Key = ''url'', Value = StringValue []\<rparr>])
   \<and> (len (msg_PartnerIDs msg) = 0 \<longrightarrow> emitted (PartnerIDs fs idxPartnerIDs) msg = []
      \<and> emitted (PartnerIDsAlways fs idxPartnerIDs) msg =
          [\<lparr>Key = ''partner_ids'', Value = AnyValue (Strings (msg_PartnerIDs msg))\<rparr>]
      \<and> (msg_PartnerIDs msg = None \<or> msg_PartnerIDs msg = Some []))
   \<and> (msg_SessionID msg = [] \<longrightarrow> emitted (SessionID fs idxSessionID) msg = []
      \<and> emitted (SessionIDAlways fs idxSessionID) msg =
          [\<lparr>Key = ''session_id'', Value = StringValue []\<rparr>])"
  using omit_Source[of msg fs] omit_Destination[of msg fs] omit_TransactionUUID[of msg fs]
    omit_ContentType[of msg fs] omit_Accept[of msg fs] omit_Status[of msg fs]
    omit_RequestDeliveryResponse[of msg fs] omit_Headers[of msg fs] omit_Metadata[of msg fs]
    omit_Path[of msg fs] omit_Payload[of msg fs] omit_PayloadSize[of msg fs]
    omit_ServiceName[of msg fs] omit_URL[of msg fs] omit_PartnerIDs[of msg fs]
    omit_SessionID[of msg fs]
  by blast

lemma Message_zero_simps:
  "msg_Source Message_zero = []" "msg_Destination Message_zero = []"
  "msg_TransactionUUID Message_zero = []" "msg_ContentType Message_zero = []"
  "msg_Accept Message_zero = []" "msg_Status Message_zero = None"
  "msg_RequestDeliveryResponse Message_zero = None" "msg_Headers Message_zero = None"
  "msg_Metadata Message_zero = None" "msg_Path Message_zero = []"
  "msg_Payload Message_zero = None" "msg_ServiceName Message_zero = []"
  "msg_URL Message_zero = []" "msg_PartnerIDs Message_zero = None"
  "msg_SessionID Message_zero = []" "msg_Type Message_zero = 0"
  "msg_QualityOfService Message_zero = 0"
  by (simp_all add: Message_zero_def)

theorem omit_laws_witness:
  "emitted (Source (\<lambda>_. None) idxSource) Message_zero = []
   \<and> emitted (SourceAlways (\<lambda>_. None) idxSource) Message_zero =
       [\<lparr>Key = ''source'', Value = StringValue []\<rparr>]
   \<and> emitted (Status (\<lambda>_. None) idxStatus) Message_zero = []
   \<and> emitted (StatusAlways (\<lambda>_. None) idxStatus) Message_zero =
       [\<lparr>Key = ''status'', Value = Int64Value 0\<rparr>]
   \<and> emitted (Headers (\<lambda>_. None) idxHeaders) Message_zero = []
   \<and> emitted (HeadersAlways (\<lambda>_. None) idxHeaders) Message_zero =
       [\<lparr>Key = ''headers'', Value = AnyValue (Strings None)\<rparr>]
   \<and> emitted (Metadata (\<lambda>_. None) idxMetadata) (Message_zero\<lparr>msg_Metadata := Some fmempty\<rparr>) = []
   \<and> emitted (MetadataAlways (\<lambda>_. None) idxMetadata) (Message_zero\<lparr>msg_Metadata := Some fmempty\<rparr>) =
       [\<lparr>Key = ''metadata'', Value = AnyValue (StringMap (Some fmempty))\<rparr>]
   \<and> emitted (PayloadAsBase64 (\<lambda>_. None) idxPayload) Message_zero = []
   \<and> emitted (PayloadAsBase64Always (\<lambda>_. None) idxPayload) Message_zero =
       [\<lparr>Key = ''payload'', Value = StringValue []\<rparr>]
   \<and> emitted (PayloadSize (\<lambda>_. None) idxPayloadSize) Message_zero = []
   \<and> emitted (PayloadSizeAlways (\<lambda>_. None) idxPayloadSize) Message_zero =
       [\<lparr>Key = ''payload_size'', Value = Int64Value 0\<rparr>]"
proof -
  have z: "len (None :: string slice) = 0" "len (None :: byte slice) = 0"
    "len_map (Some fmempty) = 0"
    by (simp_all add: len_def len_map_def)
  from omit_laws[of Message_zero "\<lambda>_. None"] z
  have a: "emitted (Source (\<lambda>_. None) idxSource) Message_zero = []
   \<and> emitted (SourceAlways (\<lambda>_. None) idxSource) Message_zero =
       [\<lparr>Key = ''source'', Value = StringValue []\<rparr>]
   \<and> emitted (Status (\<lambda>_. None) idxStatus) Message_zero = []
   \<and> emitted (StatusAlways (\<lambda>_. None) idxStatus) Message_zero =
       [\<lparr>Key = ''status'', Value = Int64Value 0\<rparr>]
   \<and> emitted (Headers (\<lambda>_. None) idxHeaders) Message_zero = []
   \<and> emitted (HeadersAlways (\<lambda>_. None) idxHeaders) Message_zero =
       [\<lparr>Key = ''headers'', Value = AnyValue (Strings None)\<rparr>]
   \<and> emitted (PayloadAsBase64 (\<lambda>_. None) idxPayload) Message_zero = []
   \<and> emitted (PayloadAsBase64Always (\<lambda>_. None) idxPayload) Message_zero =
       [\<lparr>Key = ''payload'', Value = StringValue []\<rparr>]
   \<and> emitted (PayloadSize (\<lambda>_. None) idxPayloadSize) Message_zero = []
   \<and> emitted (PayloadSizeAlways (\<lambda>_. None) idxPayloadSize) Message_zero =
       [\<lparr>Key = ''payload_size'', Value = Int64Value 0\<rparr>]"
    by (simp add: Message_zero_simps)
  from omit_laws[of "Message_zero\<lparr>msg_Metadata := Some fmempty\<rparr>" "\<lambda>_. None"] z
  have b: "emitted (Metadata (\<lambda>_. None) idxMetadata) (Message_zero\<lparr>msg_Metadata := Some fmempty\<rparr>) = []
   \<and> emitted (MetadataAlways (\<lambda>_. None) idxMetadata) (Message_zero\<lparr>msg_Metadata := Some fmempty\<rparr>) =
       [\<lparr>Key = ''metadata'', Value = AnyValue (StringMap (Some fmempty))\<rparr>]"
    by simp
  from a b show ?thesis by simp
qed

section \<open>Keys\<close>

lemma init_keyInv:
  "list_all (fromCatalog String) (Fields ob) \<Longrightarrow> keyInv (ob_fields ob) \<Longrightarrow>
   keyInv (ob_fields (init ob))"
  by (simp add: init_def keyInv_init_loop)

lemma set_keys_attrsOf:
  assumes "keyInv t"
  shows "set (map Key (attrsOf t msg)) \<subseteq> set (map fieldKey fieldIndices)"
proof
  fix x
  assume x: "x \<in> set (map Key (attrsOf t msg))"
  have sub: "subseq (map Key (attrsOf t msg)) (map fieldKey fieldIndices)"
    using keys_subseq_attrsOf[OF assms] .
  from sub x obtain y where "y \<in> set (map fieldKey fieldIndices)" "x = y"
    by (rule list_emb_set)
  then show "x \<in> set (map fieldKey fieldIndices)" by simp
qed

lemma catalog_selector:
  assumes "(S, g) \<in> set (catalog String)"
  shows "\<exists>f. g fs S = Some f \<and> (Key (f msg) = [] \<or> Key (f msg) = fieldKey S)"
proof -
  from catalog_assigns[OF assms] obtain f where
    "g = (\<lambda>fs. fs(S \<mapsto> f))" "\<forall>msg. Key (f msg) = [] \<or> Key (f msg) = fieldKey S"
    by blast
  then show ?thesis by simp
qed

lemma ObserveWRP_no_panic: "ObserveWRP ob ctx msg \<noteq> Inl e"
  by (cases "Logger ob") (simp_all add: ObserveWRP_eq)

lemma ObserveWRP_keys:
  assumes cat: "list_all (fromCatalog String) (Fields ob)" and inv: "keyInv (ob_fields ob)"
  shows "\<exists>ob' cs. ObserveWRP ob ctx msg = Inr (ob', cs)
         \<and> Fields ob' = Fields ob \<and> keyInv (ob_fields ob')
         \<and> (cs = [] \<or> (\<exists>c v m attrs. cs = [LogAttrs c v m attrs]
              \<and> distinct (map Key attrs)
              \<and> set (map Key attrs) \<subseteq> set (map fieldKey fieldIndices)
              \<and> length attrs \<le> fieldCount))"
proof (cases "\<exists>lg. Logger ob = Some lg \<and> Enabled lg ctx (Level ob)")
  case True
  then obtain lg where "Logger ob = Some lg" "Enabled lg ctx (Level ob)" by blast
  note run = ObserveWRP_enabled[OF this, of msg]
  have inv': "keyInv (ob_fields (init ob))" using init_keyInv[OF cat inv] .
  let ?attrs = "attrsOf (ob_fields (init ob)) msg"
  have "distinct (map Key ?attrs)"
    "set (map Key ?attrs) \<subseteq> set (map fieldKey fieldIndices)"
    "length ?attrs \<le> fieldCount"
    using distinct_keys_attrsOf[OF inv'] set_keys_attrsOf[OF inv'] length_attrsOf
    by blast+
  then have "\<exists>c v m attrs. [LogAttrs ctx (Level ob) (Message ob) ?attrs] = [LogAttrs c v m attrs]
              \<and> distinct (map Key attrs)
              \<and> set (map Key attrs) \<subseteq> set (map fieldKey fieldIndices)
              \<and> length attrs \<le> fieldCount"
    by (intro exI conjI) (rule refl, assumption+)
  with run inv' init_simps(4)[of ob] show ?thesis
    by (intro exI conjI) (assumption, assumption, assumption, rule disjI2)
next
  case False
  then have "Logger ob = None \<or> (\<exists>lg. Logger ob = Some lg \<and> \<not> Enabled lg ctx (Level ob))"
    by (cases "Logger ob") auto
  from ObserveWRP_fast_exit[OF this, of msg] inv show ?thesis by simp
qed

text \<open>
  Claim C10. The selector that a constructor of the catalog assigns to its slot returns,
  on every message, an attribute with the empty key or with the key of that slot. So
  when the entries of Fields are nil or constructors of the catalog and the array
  satisfies the invariant (as the array of a new observer does), a call of ObserveWRP
  returns without a panic, keeps the invariant, and the attribute list of its call of the
  logger has pairwise distinct keys, all among the eighteen key constants, and at most
  fieldCount entries. For every observer the write into the array of attributes stays in
  range.
\<close>

theorem key_skip_invariant:
  "((S, g) \<in> set (catalog String) \<longrightarrow>
      (\<exists>f. g fs S = Some f \<and> (Key (f msg) = [] \<or> Key (f msg) = fieldKey S)))
   \<and> (list_all (fromCatalog String) (Fields ob) \<and> keyInv (ob_fields ob) \<longrightarrow>
      (\<exists>ob' cs. ObserveWRP ob ctx msg = Inr (ob', cs)
         \<and> Fields ob' = Fields ob \<and> keyInv (ob_fields ob')
         \<and> (cs = [] \<or> (\<exists>c v m attrs. cs = [LogAttrs c v m attrs]
              \<and> distinct (map Key attrs)
              \<and> set (map Key attrs) \<subseteq> set (map fieldKey fieldIndices)
              \<and> length attrs \<le> fieldCount))))
   \<and> keyInv (ob_fields (newObserver l v m cfg))
   \<and> ObserveWRP ob ctx msg \<noteq> Inl IndexOutOfRange"
proof (intro conjI impI)
  assume "(S, g) \<in> set (catalog String)"
  then show "\<exists>f. g fs S = Some f \<and> (Key (f msg) = [] \<or> Key (f msg) = fieldKey S)"
    by (rule catalog_selector)
next
  assume "list_all (fromCatalog String) (Fields ob) \<and> keyInv (ob_fields ob)"
  then have "list_all (fromCatalog String) (Fields ob)" "keyInv (ob_fields ob)" by simp_all
  then show "\<exists>ob' cs. ObserveWRP ob ctx msg = Inr (ob', cs)
         \<and> Fields ob' = Fields ob \<and> keyInv (ob_fields ob')
         \<and> (cs = [] \<or> (\<exists>c v m attrs. cs = [LogAttrs c v m attrs]
              \<and> distinct (map Key attrs)
              \<and> set (map Key attrs) \<subseteq> set (map fieldKey fieldIndices)
              \<and> length attrs \<le> fieldCount))"
    by (rule ObserveWRP_keys)
next
  show "keyInv (ob_fields (newObserver l v m cfg))"
    by (simp add: newObserver_def keyInv_empty)
next
  show "ObserveWRP ob ctx msg \<noteq> Inl IndexOutOfRange"
    by (rule ObserveWRP_no_panic)
qed

theorem key_skip_invariant_witness:
  "(idxSource, Source) \<in> set (catalog (\<lambda>_. []))
   \<and> list_all (fromCatalog (\<lambda>_. [])) [Some Source, None, Some MessageType, Some SourceAlways]
   \<and> (\<exists>f. Source (\<lambda>_. None) idxSource = Some f
        \<and> (Key (f Message_zero) = [] \<or> Key (f Message_zero) = fieldKey idxSource))
   \<and> (\<exists>ob' cs. ObserveWRP (newObserver (Some (recordHandler LevelInfo)) LevelInfo ''wrp message''
           [Some Source, None, Some MessageType, Some SourceAlways]) () Message_zero = Inr (ob', cs)
         \<and> keyInv (ob_fields ob')
         \<and> (cs = [] \<or> (\<exists>c v m attrs. cs = [LogAttrs c v m attrs]
              \<and> distinct (map Key attrs)
              \<and> set (map Key attrs) \<subseteq> set (map fieldKey fieldIndices)
              \<and> length attrs \<le> fieldCount)))
   \<and> calls (ObserveWRP (newObserver (Some (recordHandler LevelInfo)) LevelInfo ''wrp message''
           [Some Source, None, Some MessageType, Some SourceAlways]) () Message_zero)
       = Inr [LogAttrs () LevelInfo ''wrp message''
           [\<lparr>Key = ''msg_type'', Value = Int64Value 0\<rparr>,
            \<lparr>Key = ''source'', Value = StringValue []\<rparr>]]"
proof -
  let ?cfg = "[Some Source, None, Some MessageType, Some SourceAlways]"
  let ?ob = "newObserver (Some (recordHandler LevelInfo)) LevelInfo ''wrp message'' ?cfg
     :: unit Observer"
  have h1: "(idxSource, Source) \<in> set (catalog (\<lambda>_. []))"
    by (simp add: catalog_def)
  have h2: "list_all (fromCatalog (\<lambda>_. [])) ?cfg"
    by (simp add: fromCatalog_def catalog_def)
  have h2': "list_all (fromCatalog (\<lambda>_. [])) (Fields ?ob)"
    using h2 by (simp add: newObserver_def)
  have h3: "keyInv (ob_fields ?ob)"
    by (simp add: newObserver_def keyInv_empty)
  note K = key_skip_invariant[of idxSource Source "\<lambda>_. []" "\<lambda>_. None" Message_zero ?ob "()"]
  note k1 = K[THEN conjunct1, rule_format, OF h1]
  from K[THEN conjunct2, THEN conjunct1, rule_format, OF conjI[OF h2' h3]]
  have k2: "\<exists>ob' cs. ObserveWRP ?ob () Message_zero = Inr (ob', cs)
         \<and> keyInv (ob_fields ob')
         \<and> (cs = [] \<or> (\<exists>c v m attrs. cs = [LogAttrs c v m attrs]
              \<and> distinct (map Key attrs)
              \<and> set (map Key attrs) \<subseteq> set (map fieldKey fieldIndices)
              \<and> length attrs \<le> fieldCount))"
    by (elim exE conjE) (intro conjI exI, assumption+)
  have e: "calls (ObserveWRP ?ob () Message_zero)
       = Inr [LogAttrs () LevelInfo ''wrp message''
           [\<lparr>Key = ''msg_type'', Value = Int64Value 0\<rparr>,
            \<lparr>Key = ''source'', Value = StringValue []\<rparr>]]"
    by (simp add: calls_def ObserveWRP_eq attrsOf_def emitted_def newObserver_def
      recordHandler_def LevelInfo_def init_def fieldIndices_def Message_zero_def
      opt_defs slog_defs fname_defs)
  show ?thesis
    apply (intro conjI)
        apply (rule h1)
       apply (rule h2)
      apply (rule k1)
     apply (rule k2)
    apply (rule e)
    done
qed

section \<open>The compiled array\<close>

lemma init_new:
  "init (newObserver l v m cfg) =
     \<lparr>Logger = l, Level = v, Message = m, Fields = cfg, once = True,
      ob_fields = init_loop cfg (\<lambda>_. None)\<rparr>"
  by (simp add: init_def newObserver_def)

lemma calls_new:
  "calls (ObserveWRP (newObserver l v m cfg) ctx msg) =
     (case l of None \<Rightarrow> Inr []
      | Some lg \<Rightarrow> if Enabled lg ctx v then
           Inr [LogAttrs ctx v m (attrsOf (init_loop cfg (\<lambda>_. None)) msg)] else Inr [])"
  by (simp add: calls_def ObserveWRP_eq init_new split: option.splits)
    (simp add: newObserver_def)

lemma init_loop_last_wins:
  assumes B: "(S, B) \<in> set (catalog String)"
    and zs: "list_all (fromCatalogNot String S) zs"
  shows "init_loop (pre @ Some B # zs) fs S = init_loop [Some B] (\<lambda>_. None) S"
proof -
  from catalog_assigns[OF B] obtain f where g: "B = (\<lambda>fs. fs(S \<mapsto> f))" by blast
  have "init_loop (pre @ Some B # zs) fs S = init_loop zs (B (init_loop pre fs)) S"
    by (simp add: init_loop_append)
  also have "\<dots> = B (init_loop pre fs) S"
    using init_loop_other_slots[OF zs] .
  also have "\<dots> = Some f" using g by simp
  finally show ?thesis using g by simp
qed

lemma init_loop_overwrite:
  assumes A: "(S, A) \<in> set (catalog String)" and B: "(S, B) \<in> set (catalog String)"
  shows "init_loop [Some A, Some B] fs = init_loop [Some B] fs"
proof -
  from catalog_assigns[OF A] obtain fa where a: "A = (\<lambda>fs. fs(S \<mapsto> fa))" by blast
  from catalog_assigns[OF B] obtain fb where b: "B = (\<lambda>fs. fs(S \<mapsto> fb))" by blast
  show ?thesis by (simp add: a b)
qed

lemma init_loop_swap:
  assumes A: "(S, A) \<in> set (catalog String)" and B: "(T, B) \<in> set (catalog String)"
    and ne: "S \<noteq> T"
  shows "init_loop (xs @ Some A # Some B # ys) fs = init_loop (xs @ Some B # Some A # ys) fs"
proof -
  from catalog_assigns[OF A] obtain fa where a: "A = (\<lambda>fs. fs(S \<mapsto> fa))" by blast
  from catalog_assigns[OF B] obtain fb where b: "B = (\<lambda>fs. fs(T \<mapsto> fb))" by blast
  have "B (A t) = A (B t)" for t
    using ne by (simp add: a b fun_upd_twist)
  then show ?thesis by (simp add: init_loop_append)
qed

text \<open>
  Claim C2. Let the entries of Fields be nil or constructors of the catalog, and let A
  and, later in the list, B be constructors of slot S, with no constructor of slot S
  after B. Then the entry of slot S in the compiled array is the selector that B alone
  installs. In the record that a new observer with these fields emits, the attributes
  under the key of slot S are exactly what an observer with B alone emits, and they are
  at most one. With the fields A, B an observer makes the same calls of the logger as
  with B alone.
\<close>

theorem last_registration_wins:
  assumes "(S, A) \<in> set (catalog String)" and "(S, B) \<in> set (catalog String)"
    and "list_all (fromCatalog String) xs" and "list_all (fromCatalog String) ys"
    and "list_all (fromCatalogNot String S) zs"
  shows "init_loop (xs @ Some A # ys @ Some B # zs) (\<lambda>_. None) S = init_loop [Some B] (\<lambda>_. None) S
    \<and> (\<exists>attrs. calls (ObserveWRP
          (newObserver (Some lg) v m (xs @ Some A # ys @ Some B # zs)) ctx msg) =
            (if Enabled lg ctx v then Inr [LogAttrs ctx v m attrs] else Inr [])
        \<and> filter (\<lambda>a. Key a = fieldKey S) attrs = attrsOf (init_loop [Some B] (\<lambda>_. None)) msg
        \<and> length (filter (\<lambda>a. Key a = fieldKey S) attrs) \<le> 1)
    \<and> calls (ObserveWRP (newObserver l v m [Some A, Some B]) ctx msg) =
        calls (ObserveWRP (newObserver l v m [Some B]) ctx msg)"
proof -
  let ?cfg = "xs @ Some A # ys @ Some B # zs"
  let ?t = "init_loop ?cfg (\<lambda>_. None)"
  let ?b = "init_loop [Some B] (\<lambda>_. None)"
  have entry: "?t S = ?b S"
    using init_loop_last_wins[OF assms(2,5), of "xs @ Some A # ys" "\<lambda>_. None"] by simp
  have "fromCatalog String (Some A)" "fromCatalog String (Some B)"
    using assms(1,2) by (auto simp: fromCatalog_def intro: image_eqI[where x="(S, A)"] image_eqI[where x="(S, B)"])
  moreover have "list_all (fromCatalog String) zs"
    using assms(5) by (auto simp: list_all_iff fromCatalog_def fromCatalogNot_def split: option.splits)
  ultimately have cat: "list_all (fromCatalog String) ?cfg"
    using assms(3,4) by simp
  have inv: "keyInv ?t" using keyInv_init_loop[OF cat keyInv_empty] .
  have invb: "keyInv ?b"
    using keyInv_init_loop[of String "[Some B]", OF _ keyInv_empty] \<open>fromCatalog String (Some B)\<close>
    by simp
  have fil: "filter (\<lambda>a. Key a = fieldKey S) (attrsOf ?t msg) = emitted (?b S) msg"
    using filter_key_attrsOf[OF inv, of S msg] entry by simp
  from catalog_assigns[OF assms(2)] obtain f where g: "B = (\<lambda>fs. fs(S \<mapsto> f))" by blast
  have only: "?b i = None" if "i \<noteq> S" for i using g that by simp
  have alone: "attrsOf ?b msg = emitted (?b S) msg"
  proof -
    have "\<forall>a \<in> set (attrsOf ?b msg). Key a = fieldKey S"
    proof
      fix a assume "a \<in> set (attrsOf ?b msg)"
      then obtain i where "a \<in> set (emitted (?b i) msg)"
        by (auto simp: attrsOf_def)
      then have "i = S" using only[of i] by (cases "i = S") (auto simp: emitted_def)
      with \<open>a \<in> set (emitted (?b i) msg)\<close> emitted_key[OF invb] show "Key a = fieldKey S" by blast
    qed
    then have "filter (\<lambda>a. Key a = fieldKey S) (attrsOf ?b msg) = attrsOf ?b msg"
      by (simp add: filter_id_conv)
    with filter_key_attrsOf[OF invb, of S msg] show ?thesis by simp
  qed
  have len: "length (filter (\<lambda>a. Key a = fieldKey S) (attrsOf ?t msg)) \<le> 1"
    using fil length_emitted[of "?b S" msg] by simp
  have run: "calls (ObserveWRP (newObserver (Some lg) v m ?cfg) ctx msg) =
            (if Enabled lg ctx v then Inr [LogAttrs ctx v m (attrsOf ?t msg)] else Inr [])"
    by (simp add: calls_new)
  have two: "calls (ObserveWRP (newObserver l v m [Some A, Some B]) ctx msg) =
        calls (ObserveWRP (newObserver l v m [Some B]) ctx msg)"
    using init_loop_overwrite[OF assms(1,2), of "\<lambda>_. None"] by (simp only: calls_new)
  from fil alone have fil': "filter (\<lambda>a. Key a = fieldKey S) (attrsOf ?t msg) = attrsOf ?b msg"
    by simp
  show ?thesis
    apply (intro conjI)
      apply (rule entry)
     apply (rule exI[of _ "attrsOf ?t msg"])
     apply (intro conjI)
       apply (rule run)
      apply (rule fil')
     apply (rule len)
    apply (rule two)
    done
qed

theorem last_registration_wins_witness:
  "(idxMsgType, MessageType) \<in> set (catalog (\<lambda>_. ''T''))
   \<and> (idxMsgType, MessageTypeAsString (\<lambda>_. ''T'')) \<in> set (catalog (\<lambda>_. ''T''))
   \<and> list_all (fromCatalog (\<lambda>_. ''T'')) [Some Source]
   \<and> list_all (fromCatalog (\<lambda>_. ''T'')) [None]
   \<and> list_all (fromCatalogNot (\<lambda>_. ''T'') idxMsgType) [Some Destination]
   \<and> init_loop ([Some Source] @ Some MessageType # [None] @
         Some (MessageTypeAsString (\<lambda>_. ''T'')) # [Some Destination]) (\<lambda>_. None) idxMsgType
       = init_loop [Some (MessageTypeAsString (\<lambda>_. ''T''))] (\<lambda>_. None) idxMsgType
   \<and> calls (ObserveWRP (newObserver (Some (recordHandler LevelInfo)) LevelInfo ''wrp message''
         [Some MessageType, Some (MessageTypeAsString (\<lambda>_. ''T''))]) () (Message_zero\<lparr>msg_Type := 3\<rparr>))
       = calls (ObserveWRP (newObserver (Some (recordHandler LevelInfo)) LevelInfo ''wrp message''
         [Some (MessageTypeAsString (\<lambda>_. ''T''))]) () (Message_zero\<lparr>msg_Type := 3\<rparr>))
   \<and> calls (ObserveWRP (newObserver (Some (recordHandler LevelInfo)) LevelInfo ''wrp message''
         [Some MessageType, Some (MessageTypeAsString (\<lambda>_. ''T''))]) () (Message_zero\<lparr>msg_Type := 3\<rparr>))
       = Inr [LogAttrs () LevelInfo ''wrp message'' [\<lparr>Key = ''msg_type'', Value = StringValue ''T''\<rparr>]]"
proof -
  let ?S = "\<lambda>_::int64. ''T''"
  have h1: "(idxMsgType, MessageType) \<in> set (catalog ?S)"
    by (simp add: catalog_def)
  have h2: "(idxMsgType, MessageTypeAsString ?S) \<in> set (catalog ?S)"
    by (simp add: catalog_def)
  have h3: "list_all (fromCatalog ?S) [Some Source]"
    by (simp add: fromCatalog_def catalog_def)
  have h4: "list_all (fromCatalog ?S) [None]"
    by (simp add: fromCatalog_def)
  have h5: "list_all (fromCatalogNot ?S idxMsgType) [Some Destination]"
    by (simp add: fromCatalogNot_def catalog_def)
  note W = last_registration_wins[OF h1 h2 h3 h4 h5,
      of "recordHandler LevelInfo" LevelInfo "''wrp message''" "()" "Message_zero\<lparr>msg_Type := 3\<rparr>"
         "Some (recordHandler LevelInfo)"]
  have e: "calls (ObserveWRP (newObserver (Some (recordHandler LevelInfo)) LevelInfo ''wrp message''
         [Some MessageType, Some (MessageTypeAsString ?S)]) () (Message_zero\<lparr>msg_Type := 3\<rparr>))
       = Inr [LogAttrs () LevelInfo ''wrp message'' [\<lparr>Key = ''msg_type'', Value = StringValue ''T''\<rparr>]]"
    by (simp add: calls_def ObserveWRP_eq attrsOf_def emitted_def newObserver_def
      recordHandler_def LevelInfo_def init_def fieldIndices_def Message_zero_def
      opt_defs slog_defs fname_defs)
  show ?thesis
    apply (intro conjI)
           apply (rule h1)
          apply (rule h2)
         apply (rule h3)
        apply (rule h4)
       apply (rule h5)
      apply (rule W[THEN conjunct1])
     apply (rule W[THEN conjunct2, THEN conjunct2])
    apply (rule e)
    done
qed

text \<open>
  Claim C3. Two lists of fields that compile to the same entry in every slot make a new
  observer emit the same calls of the logger for every message; exchanging two
  neighbouring constructors of different slots is such a change of the list. The
  attribute list is the concatenation of what the slots contribute, in the order of the
  slots, so for fields of the catalog its keys are a subsequence of the slot keys in the
  order of declaration.
\<close>

theorem attribute_order_is_slot_order:
  "((\<forall>S. init_loop cfg1 (\<lambda>_. None) S = init_loop cfg2 (\<lambda>_. None) S) \<longrightarrow>
      calls (ObserveWRP (newObserver l v m cfg1) ctx msg) =
      calls (ObserveWRP (newObserver l v m cfg2) ctx msg))
   \<and> ((S, A) \<in> set (catalog String) \<and> (T, B) \<in> set (catalog String) \<and> S \<noteq> T \<longrightarrow>
      calls (ObserveWRP (newObserver l v m (xs @ Some A # Some B # ys)) ctx msg) =
      calls (ObserveWRP (newObserver l v m (xs @ Some B # Some A # ys)) ctx msg))
   \<and> (list_all (fromCatalog String) cfg
        \<and> calls (ObserveWRP (newObserver l v m cfg) ctx msg) = Inr [LogAttrs c' v' m' attrs] \<longrightarrow>
      attrs = concat (map (\<lambda>i. emitted (init_loop cfg (\<lambda>_. None) i) msg) fieldIndices)
      \<and> subseq (map Key attrs) (map fieldKey fieldIndices))"
proof (intro conjI impI)
  assume "\<forall>S. init_loop cfg1 (\<lambda>_. None) S = init_loop cfg2 (\<lambda>_. None) S"
  then have "init_loop cfg1 (\<lambda>_. None) = init_loop cfg2 (\<lambda>_. None)" by (intro ext) simp
  then show "calls (ObserveWRP (newObserver l v m cfg1) ctx msg) =
      calls (ObserveWRP (newObserver l v m cfg2) ctx msg)"
    by (simp only: calls_new)
next
  assume "(S, A) \<in> set (catalog String) \<and> (T, B) \<in> set (catalog String) \<and> S \<noteq> T"
  then have "(S, A) \<in> set (catalog String)" "(T, B) \<in> set (catalog String)" "S \<noteq> T"
    by simp_all
  from init_loop_swap[OF this, of xs ys "\<lambda>_. None"]
  show "calls (ObserveWRP (newObserver l v m (xs @ Some A # Some B # ys)) ctx msg) =
      calls (ObserveWRP (newObserver l v m (xs @ Some B # Some A # ys)) ctx msg)"
    by (simp only: calls_new)
next
  assume h: "list_all (fromCatalog String) cfg
        \<and> calls (ObserveWRP (newObserver l v m cfg) ctx msg) = Inr [LogAttrs c' v' m' attrs]"
  then have eq: "attrs = attrsOf (init_loop cfg (\<lambda>_. None)) msg"
    by (auto simp: calls_new split: option.splits if_splits)
  then show "attrs = concat (map (\<lambda>i. emitted (init_loop cfg (\<lambda>_. None) i) msg) fieldIndices)"
    by (simp add: attrsOf_def)
  from h have "keyInv (init_loop cfg (\<lambda>_. None))"
    using keyInv_init_loop[OF _ keyInv_empty] by blast
  from keys_subseq_attrsOf[OF this, of msg] eq
  show "subseq (map Key attrs) (map fieldKey fieldIndices)" by simp
qed

theorem attribute_order_is_slot_order_witness:
  "(\<forall>S. init_loop [Some Source, Some MessageType] (\<lambda>_. None) S
        = init_loop [Some MessageType, Some Source] (\<lambda>_. None) S)
   \<and> (idxSource, Source) \<in> set (catalog (\<lambda>_. ''T''))
   \<and> (idxMsgType, MessageType) \<in> set (catalog (\<lambda>_. ''T''))
   \<and> idxSource \<noteq> idxMsgType
   \<and> list_all (fromCatalog (\<lambda>_. ''T'')) [Some Source, Some MessageType]
   \<and> calls (ObserveWRP (newObserver (Some (recordHandler LevelInfo)) LevelInfo ''wrp message''
         [Some Source, Some MessageType]) () (Message_zero\<lparr>msg_Type := 3, msg_Source := ''s''\<rparr>))
       = calls (ObserveWRP (newObserver (Some (recordHandler LevelInfo)) LevelInfo ''wrp message''
         [Some MessageType, Some Source]) () (Message_zero\<lparr>msg_Type := 3, msg_Source := ''s''\<rparr>))
   \<and> calls (ObserveWRP (newObserver (Some (recordHandler LevelInfo)) LevelInfo ''wrp message''
         [Some Source, Some MessageType]) () (Message_zero\<lparr>msg_Type := 3, msg_Source := ''s''\<rparr>))
       = Inr [LogAttrs () LevelInfo ''wrp message''
           [\<lparr>Key = ''msg_type'', Value = Int64Value 3\<rparr>,
            \<lparr>Key = ''source'', Value = StringValue ''s''\<rparr>]]
   \<and> subseq (map Key [\<lparr>Key = ''msg_type'', Value = Int64Value 3\<rparr>,
            \<lparr>Key = ''source'', Value = StringValue ''s''\<rparr>]) (map fieldKey fieldIndices)"
proof -
  let ?S = "\<lambda>_::int64. ''T''"
  let ?msg = "Message_zero\<lparr>msg_Type := 3, msg_Source := ''s''\<rparr>"
  let ?l = "Some (recordHandler LevelInfo) :: unit Logger option"
  have h0: "\<forall>S. init_loop [Some Source, Some MessageType] (\<lambda>_. None) S
        = init_loop [Some MessageType, Some Source] (\<lambda>_. None) S"
    by (simp add: opt_defs)
  have h1: "(idxSource, Source) \<in> set (catalog ?S)"
    by (simp add: catalog_def)
  have h2: "(idxMsgType, MessageType) \<in> set (catalog ?S)"
    by (simp add: catalog_def)
  have h3: "idxSource \<noteq> idxMsgType" by simp
  have h4: "list_all (fromCatalog ?S) [Some Source, Some MessageType]"
    by (simp add: fromCatalog_def catalog_def)
  have e: "calls (ObserveWRP (newObserver ?l LevelInfo ''wrp message''
         [Some Source, Some MessageType]) () ?msg)
       = Inr [LogAttrs () LevelInfo ''wrp message''
           [\<lparr>Key = ''msg_type'', Value = Int64Value 3\<rparr>,
            \<lparr>Key = ''source'', Value = StringValue ''s''\<rparr>]]"
    by (simp add: calls_def ObserveWRP_eq attrsOf_def emitted_def newObserver_def
      recordHandler_def LevelInfo_def init_def fieldIndices_def Message_zero_def
      opt_defs slog_defs fname_defs)
  note W = attribute_order_is_slot_order[of "[Some Source, Some MessageType]"
      "[Some MessageType, Some Source]" ?l LevelInfo "''wrp message''" "()" ?msg
      idxSource Source ?S idxMsgType MessageType "[]" "[]"
      "[Some Source, Some MessageType]" "()" LevelInfo "''wrp message''"
      "[\<lparr>Key = ''msg_type'', Value = Int64Value 3\<rparr>,
            \<lparr>Key = ''source'', Value = StringValue ''s''\<rparr>]"]
  note w1 = W[THEN conjunct1, THEN mp, OF h0]
  note w2 = W[THEN conjunct2, THEN conjunct1, THEN mp, OF conjI[OF h1 conjI[OF h2 h3]]]
  from w1 w2 have w12: "calls (ObserveWRP (newObserver ?l LevelInfo ''wrp message''
         [Some Source, Some MessageType]) () ?msg)
       = calls (ObserveWRP (newObserver ?l LevelInfo ''wrp message''
         [Some MessageType, Some Source]) () ?msg)"
    by simp
  note w3 = W[THEN conjunct2, THEN conjunct2, THEN mp, OF conjI[OF h4 e], THEN conjunct2]
  show ?thesis
    apply (intro conjI)
           apply (rule h0)
          apply (rule h1)
         apply (rule h2)
        apply (rule h3)
       apply (rule h4)
      apply (rule w12)
     apply (rule e)
    apply (rule w3)
    done
qed

section \<open>When the fields are compiled\<close>

lemma ObserveWRP_after_fast_exit:
  assumes fresh: "\<not> once ob"
    and exit: "Logger ob = None \<or> (\<exists>lg. Logger ob = Some lg \<and> \<not> Enabled lg ctx (Level ob))"
    and en: "Enabled lg2 ctx2 v2"
  shows "\<exists>ob1. ObserveWRP ob ctx msg = Inr (ob1, [])
     \<and> calls (ObserveWRP (ob1\<lparr>Logger := Some lg2, Level := v2, Fields := F2\<rparr>) ctx2 msg2) =
         Inr [LogAttrs ctx2 v2 (Message ob) (attrsOf (init_loop F2 (ob_fields ob)) msg2)]"
proof -
  let ?ob2 = "ob\<lparr>Logger := Some lg2, Level := v2, Fields := F2\<rparr>"
  have 1: "ObserveWRP ob ctx msg = Inr (ob, [])"
    using ObserveWRP_fast_exit[OF exit] .
  have "Logger ?ob2 = Some lg2" "Enabled lg2 ctx2 (Level ?ob2)" using en by simp_all
  from ObserveWRP_enabled[OF this, of msg2] fresh
  have 2: "calls (ObserveWRP ?ob2 ctx2 msg2) =
         Inr [LogAttrs ctx2 v2 (Message ob) (attrsOf (init_loop F2 (ob_fields ob)) msg2)]"
    by (simp add: calls_def init_def)
  from 1 2 show ?thesis by (intro exI conjI)
qed

text \<open>
  Claim C9. A call that leaves early, because the logger is nil or reports the level
  disabled, returns the observer unchanged: nothing is compiled and \<open>once\<close> keeps its
  value. The first call that finds the logger enabled sets \<open>once\<close> and compiles Fields into
  the array; a call that finds \<open>once\<close> set leaves the observer as it is. So when a call
  on an observer that has not compiled leaves early and the caller then replaces Fields
  (and sets a logger and a level that is enabled), the next call logs the attributes of
  the replaced list.
\<close>

theorem compile_on_first_enabled_call:
  "(Logger ob = None \<or> (\<exists>lg. Logger ob = Some lg \<and> \<not> Enabled lg ctx (Level ob)) \<longrightarrow>
      ObserveWRP ob ctx msg = Inr (ob, []))
   \<and> (Logger ob = Some lg \<and> Enabled lg ctx (Level ob) \<and> \<not> once ob \<longrightarrow>
      (\<exists>cs. ObserveWRP ob ctx msg =
         Inr (ob\<lparr>once := True, ob_fields := init_loop (Fields ob) (ob_fields ob)\<rparr>, cs)))
   \<and> (Logger ob = Some lg \<and> Enabled lg ctx (Level ob) \<and> once ob \<longrightarrow>
      (\<exists>cs. ObserveWRP ob ctx msg = Inr (ob, cs)))
   \<and> (\<not> once ob
        \<and> (Logger ob = None \<or> (\<exists>lg. Logger ob = Some lg \<and> \<not> Enabled lg ctx (Level ob)))
        \<and> Enabled lg2 ctx2 v2 \<longrightarrow>
      (\<exists>ob1. ObserveWRP ob ctx msg = Inr (ob1, [])
        \<and> calls (ObserveWRP (ob1\<lparr>Logger := Some lg2, Level := v2, Fields := F2\<rparr>) ctx2 msg2) =
            Inr [LogAttrs ctx2 v2 (Message ob) (attrsOf (init_loop F2 (ob_fields ob)) msg2)]))"
proof (intro conjI impI)
  assume "Logger ob = None \<or> (\<exists>lg. Logger ob = Some lg \<and> \<not> Enabled lg ctx (Level ob))"
  then show "ObserveWRP ob ctx msg = Inr (ob, [])" by (rule ObserveWRP_fast_exit)
next
  assume "Logger ob = Some lg \<and> Enabled lg ctx (Level ob) \<and> \<not> once ob"
  then have h: "Logger ob = Some lg" "Enabled lg ctx (Level ob)" "\<not> once ob" by simp_all
  from ObserveWRP_enabled[OF h(1,2), of msg] h(3)
  show "\<exists>cs. ObserveWRP ob ctx msg =
         Inr (ob\<lparr>once := True, ob_fields := init_loop (Fields ob) (ob_fields ob)\<rparr>, cs)"
    by (simp add: init_def)
next
  assume "Logger ob = Some lg \<and> Enabled lg ctx (Level ob) \<and> once ob"
  then have h: "Logger ob = Some lg" "Enabled lg ctx (Level ob)" "once ob" by simp_all
  from ObserveWRP_enabled[OF h(1,2), of msg] h(3)
  show "\<exists>cs. ObserveWRP ob ctx msg = Inr (ob, cs)"
    by (simp add: init_def)
next
  assume "\<not> once ob
        \<and> (Logger ob = None \<or> (\<exists>lg. Logger ob = Some lg \<and> \<not> Enabled lg ctx (Level ob)))
        \<and> Enabled lg2 ctx2 v2"
  then have h: "\<not> once ob"
    "Logger ob = None \<or> (\<exists>lg. Logger ob = Some lg \<and> \<not> Enabled lg ctx (Level ob))"
    "Enabled lg2 ctx2 v2" by simp_all
  show "\<exists>ob1. ObserveWRP ob ctx msg = Inr (ob1, [])
        \<and> calls (ObserveWRP (ob1\<lparr>Logger := Some lg2, Level := v2, Fields := F2\<rparr>) ctx2 msg2) =
            Inr [LogAttrs ctx2 v2 (Message ob) (attrsOf (init_loop F2 (ob_fields ob)) msg2)]"
    using ObserveWRP_after_fast_exit[OF h] .
qed

theorem compile_on_first_enabled_call_witness:
  "ObserveWRP (newObserver None LevelInfo ''wrp message'' [Some Source]) ()
       (Message_zero\<lparr>msg_Source := ''s'', msg_Destination := ''d''\<rparr>)
     = Inr (newObserver None LevelInfo ''wrp message'' [Some Source], [])
   \<and> calls (ObserveWRP
         ((newObserver None LevelInfo ''wrp message'' [Some Source])
            \<lparr>Logger := Some (recordHandler LevelInfo), Level := LevelInfo,
             Fields := [Some Destination]\<rparr>) ()
         (Message_zero\<lparr>msg_Source := ''s'', msg_Destination := ''d''\<rparr>))
     = Inr [LogAttrs () LevelInfo ''wrp message'' [\<lparr>Key = ''dest'', Value = StringValue ''d''\<rparr>]]
   \<and> calls (ObserveWRP
         ((newObserver None LevelInfo ''wrp message'' [Some Source])
            \<lparr>Logger := Some (recordHandler LevelInfo), Level := LevelInfo,
             Fields := [Some Source]\<rparr>) ()
         (Message_zero\<lparr>msg_Source := ''s'', msg_Destination := ''d''\<rparr>))
     = Inr [LogAttrs () LevelInfo ''wrp message'' [\<lparr>Key = ''source'', Value = StringValue ''s''\<rparr>]]
   \<and> (\<exists>cs. ObserveWRP (newObserver (Some (recordHandler LevelInfo)) LevelInfo ''wrp message''
           [Some Source]) ()
         (Message_zero\<lparr>msg_Source := ''s'', msg_Destination := ''d''\<rparr>)
       = Inr ((newObserver (Some (recordHandler LevelInfo)) LevelInfo ''wrp message'' [Some Source])
           \<lparr>once := True, ob_fields := init_loop [Some Source] (\<lambda>_. None)\<rparr>, cs))"
proof -
  let ?ob = "newObserver None LevelInfo ''wrp message'' [Some Source] :: unit Observer"
  let ?en = "newObserver (Some (recordHandler LevelInfo)) LevelInfo ''wrp message'' [Some Source]
     :: unit Observer"
  let ?lg = "recordHandler LevelInfo :: unit Logger"
  let ?msg = "Message_zero\<lparr>msg_Source := ''s'', msg_Destination := ''d''\<rparr>"
  have fresh: "\<not> once ?ob" by (simp add: newObserver_def)
  have nil: "Logger ?ob = None \<or> (\<exists>lg. Logger ?ob = Some lg \<and> \<not> Enabled lg () (Level ?ob))"
    by (simp add: newObserver_def)
  have en: "Enabled ?lg () LevelInfo" by (simp add: recordHandler_def)
  have en2: "Logger ?en = Some ?lg \<and> Enabled ?lg () (Level ?en) \<and> \<not> once ?en"
    by (simp add: newObserver_def recordHandler_def)
  note W = compile_on_first_enabled_call[of ?ob "()" ?msg ?lg ?lg "()" LevelInfo _ ?msg]
  note 1 = W[THEN conjunct1, THEN mp, OF nil]
  note 4 = W[THEN conjunct2, THEN conjunct2, THEN conjunct2, THEN mp,
      OF conjI[OF fresh conjI[OF nil en]]]
  from 4[of "[Some Destination]"] 1
  have d: "calls (ObserveWRP (?ob\<lparr>Logger := Some ?lg, Level := LevelInfo,
             Fields := [Some Destination]\<rparr>) () ?msg)
     = Inr [LogAttrs () LevelInfo ''wrp message'' [\<lparr>Key = ''dest'', Value = StringValue ''d''\<rparr>]]"
    by (simp add: attrsOf_def emitted_def newObserver_def fieldIndices_def Message_zero_def
        Destination_def slog_defs fDestination_def)
  from 4[of "[Some Source]"] 1
  have s: "calls (ObserveWRP (?ob\<lparr>Logger := Some ?lg, Level := LevelInfo,
             Fields := [Some Source]\<rparr>) () ?msg)
     = Inr [LogAttrs () LevelInfo ''wrp message'' [\<lparr>Key = ''source'', Value = StringValue ''s''\<rparr>]]"
    by (simp add: attrsOf_def emitted_def newObserver_def fieldIndices_def Message_zero_def
        Source_def slog_defs fSource_def)
  from compile_on_first_enabled_call[of ?en "()" ?msg ?lg, THEN conjunct2, THEN conjunct1,
      THEN mp, OF en2]
  have c: "\<exists>cs. ObserveWRP ?en () ?msg
       = Inr (?en\<lparr>once := True, ob_fields := init_loop [Some Source] (\<lambda>_. None)\<rparr>, cs)"
    by (simp add: newObserver_def)
  show ?thesis
    apply (intro conjI)
       apply (rule 1)
      apply (rule d)
     apply (rule s)
    apply (rule c)
    done
qed

text \<open>
  Claim C1 says that a change of Fields after the first call of ObserveWRP never changes
  the attributes of a later call. The observer of the package's disabled-level test, at
  level Info on a handler of level Warn and with the field Source, returns from its first
  call without compiling. When the level is then raised to Warn, the next call logs the
  source; when Fields is replaced by Destination as well, the next call logs the
  destination instead. The change of Fields after the first call shows in the output.
\<close>

theorem Fields_changed_after_disabled_first_call:
  "ObserveWRP (newObserver (Some (recordHandler LevelWarn)) LevelInfo ''test message''
        [Some Source]) ctx (Message_zero\<lparr>msg_Source := ''s'', msg_Destination := ''d''\<rparr>)
     = Inr (newObserver (Some (recordHandler LevelWarn)) LevelInfo ''test message''
        [Some Source], [])
   \<and> calls (ObserveWRP
         ((newObserver (Some (recordHandler LevelWarn)) LevelInfo ''test message'' [Some Source])
            \<lparr>Level := LevelWarn\<rparr>) ctx
         (Message_zero\<lparr>msg_Source := ''s'', msg_Destination := ''d''\<rparr>))
     = Inr [LogAttrs ctx LevelWarn ''test message''
         [\<lparr>Key = ''source'', Value = StringValue ''s''\<rparr>]]
   \<and> calls (ObserveWRP
         ((newObserver (Some (recordHandler LevelWarn)) LevelInfo ''test message'' [Some Source])
            \<lparr>Level := LevelWarn, Fields := [Some Destination]\<rparr>) ctx
         (Message_zero\<lparr>msg_Source := ''s'', msg_Destination := ''d''\<rparr>))
     = Inr [LogAttrs ctx LevelWarn ''test message''
         [\<lparr>Key = ''dest'', Value = StringValue ''d''\<rparr>]]"
  by (simp add: calls_def ObserveWRP_eq attrsOf_def emitted_def newObserver_def
      recordHandler_def LevelInfo_def LevelWarn_def init_def fieldIndices_def Message_zero_def
      Source_def Destination_def slog_defs fSource_def fDestination_def)

end
